theory Spec2Isabelle
  imports Main "HOL-Library.Word"
begin

section \<open>The backend values that aotcompile.cpp handles\<close>

text \<open>
  The file works on LLVM modules through the LLVM library. The embedding keeps of a
  module what the file reads and writes: the list of its global values (variables and
  functions) in creation order, its target triple and its data layout. A global value is
  identified by its name, as \<open>getNamedValue\<close> and \<open>prepare_global_in\<close> do; LLVM's
  renaming of a new global whose name is already taken in its module is not modelled, so a
  repeated name shows as a repeated entry of the list.
\<close>

datatype linkage = ExternalLinkage | InternalLinkage

datatype llvm_type = PointerTy | ScalarTy

datatype const =
    ConstantPointerNull
  | ConstantInt nat nat
  | BitCast string
  | GlobalAddress string
  | ConstantDataArray "8 word list"
  | ConstantArray "const list"
  | FunctionBody

record global_value =
  gv_name :: string
  gv_is_function :: bool
  gv_elem_type :: llvm_type
  gv_init :: "const option"
  gv_linkage :: linkage
  gv_constant :: bool
  gv_align :: nat

record module =
  m_globals :: "global_value list"
  m_triple :: string
  m_layout :: string

text \<open>
  \<open>Module::getNamedValue\<close>: the global of that name, or a null pointer. A global
  without a name is not in the symbol table, so the empty name finds nothing.
\<close>

definition getNamedValue :: "module \<Rightarrow> string \<Rightarrow> global_value option" where
  "getNamedValue M n = (if n = [] then None else find (\<lambda>g. gv_name g = n) (m_globals M))"

text \<open>\<open>GlobalValue::isDeclaration\<close>: no initializer and no body.\<close>

definition isDeclaration :: "global_value \<Rightarrow> bool" where
  "isDeclaration g = (gv_init g = None)"

text \<open>
  The ways the file stops the process: a failed \<open>assert\<close>, a failed LLVM \<open>cast\<close>
  (its argument is null or of another class), and the use of a null pointer.
\<close>

datatype abort = AssertionFailed | CastFailed | NullDereference

section \<open>std::map\<close>

text \<open>
  A \<open>std::map\<close> is an association list read through \<open>map_of\<close>. \<open>map_assign\<close> is
  \<open>m[k] = v\<close>; a list that is sorted by key stays so. \<open>map_entries\<close> is the
  iteration of a range-for over the map: every key once, in increasing order, whatever the
  order of the list.
\<close>

type_synonym ('k, 'v) std_map = "('k \<times> 'v) list"

definition map_count :: "('k, 'v) std_map \<Rightarrow> 'k \<Rightarrow> bool" where
  "map_count m k = (map_of m k \<noteq> None)"

fun map_assign :: "'k::linorder \<Rightarrow> 'v \<Rightarrow> ('k, 'v) std_map \<Rightarrow> ('k, 'v) std_map" where
  "map_assign k v [] = [(k, v)]"
| "map_assign k v ((k', v') # m) =
     (if k < k' then (k, v) # (k', v') # m
      else if k = k' then (k, v) # m
      else (k', v') # map_assign k v m)"

definition map_entries :: "('k::linorder, 'v) std_map \<Rightarrow> ('k \<times> 'v) list" where
  "map_entries m = map (\<lambda>k. (k, the (map_of m k))) (sort (remdups (map fst m)))"

section \<open>The process-wide state\<close>

text \<open>
  \<open>jl_value_llvm\<close> is the struct of the source: the placeholder global and its
  1-based \<open>int32_t\<close> index.
\<close>

record jl_value_llvm =
  gv :: global_value
  index :: "32 word"

text \<open>
  A method instance, as far as \<open>jl_create_native\<close> reads it. Pointers to runtime values
  are addresses (\<open>nat\<close>), the null pointer is 0.
\<close>

record jl_method_instance_t =
  min_world :: nat
  max_world :: nat
  inferred :: nat
  rettype :: nat
  def_method :: nat

text \<open>
  The variables that outlive a call: the two statics of the file, and what it uses of the
  rest of the code generator (\<open>imaging_mode\<close>, \<open>globalUnique\<close>, \<open>shadow_output\<close>, the
  two world counters, the execution engine's global mapping with the cells it points to,
  and the heap of method instances).

  Modelled from the spec: \<open>globalUnique\<close> is declared outside this file; it is the
  counter that makes placeholder names unique, taken here as a natural number that only
  grows (an overflow of the counter is not modelled).
\<close>

record codegen_state =
  imaging_mode :: bool
  globalUnique :: nat
  jl_sysimg_gvars :: "string list"
  jl_value_to_llvm :: "(nat, jl_value_llvm) std_map"
  shadow_output :: module
  global_mapping :: "(string \<times> nat) list"
  slots :: "nat list"
  jl_world_counter :: nat
  jl_typeinf_world :: nat
  method_instances :: "nat \<Rightarrow> jl_method_instance_t"

section \<open>Platform symbol finalization\<close>

text \<open>
  \<open>addComdat\<close>: its whole body is under \<open>_OS_WINDOWS_\<close>. The embedding is of a build for
  another platform, where the function returns its argument.
\<close>

definition addComdat :: "global_value \<Rightarrow> global_value" where
  "addComdat G = G"

section \<open>The global value registry\<close>

text \<open>
  Modelled from the spec: \<open>global_proto\<close> is defined outside this file. It copies a
  global variable as a declaration of the same name and type, with external linkage.
\<close>

definition global_proto :: "global_value \<Rightarrow> global_value" where
  "global_proto G = G\<lparr>gv_init := None, gv_linkage := ExternalLinkage\<rparr>"

text \<open>
  Modelled from the spec: \<open>prepare_global_in\<close> is defined outside this file. It returns
  the global of that name in the module, adding a declaration when there is none.
\<close>

definition prepare_global_in :: "module \<Rightarrow> global_value \<Rightarrow> global_value \<times> module" where
  "prepare_global_in M G =
     (case getNamedValue M (gv_name G) of
        Some local \<Rightarrow> (local, M)
      | None \<Rightarrow> (global_proto G, M\<lparr>m_globals := m_globals M @ [global_proto G]\<rparr>))"

text \<open>
  \<open>jl_emit_and_add_to_shadow\<close>. The first cast stops the process unless the variable
  holds a pointer. In imaging mode the variable gets a null-initialised internal copy in
  the shadow module, and when there is an address the copy is appended to
  \<open>jl_sysimg_gvars\<close> and the address is registered with the new length as its index. The
  result is the new cell of the execution engine (its position in \<open>slots\<close>).
\<close>

definition jl_emit_and_add_to_shadow ::
  "global_value \<Rightarrow> nat \<Rightarrow> codegen_state \<Rightarrow> abort + (nat \<times> codegen_state)" where
  "jl_emit_and_add_to_shadow g gvarinit s =
     (if gv_elem_type g \<noteq> PointerTy then Inl CastFailed
      else
        let s1 =
          (if imaging_mode s then
             let shadowvar = addComdat ((global_proto g)
                   \<lparr>gv_init := Some ConstantPointerNull, gv_linkage := InternalLinkage\<rparr>);
                 s0 = s\<lparr>shadow_output := (shadow_output s)
                        \<lparr>m_globals := m_globals (shadow_output s) @ [shadowvar]\<rparr>\<rparr>
             in if imaging_mode s \<and> gvarinit \<noteq> 0 then
                  let gvars = jl_sysimg_gvars s0 @ [gv_name shadowvar];
                      gv_struct = \<lparr>gv = global_proto g,
                                   index = word_of_nat (length gvars)\<rparr>
                  in s0\<lparr>jl_sysimg_gvars := gvars,
                        jl_value_to_llvm := map_assign gvarinit gv_struct (jl_value_to_llvm s0)\<rparr>
                else s0
           else s);
            slot = length (slots s1)
        in Inr (slot, s1\<lparr>slots := slots s1 @ [0],
                          global_mapping := global_mapping s1 @ [(gv_name g, slot)]\<rparr>))"

text \<open>
  The decimal text that \<open>operator<<\<close> writes for the counter.
\<close>

fun string_of_nat :: "nat \<Rightarrow> string" where
  "string_of_nat n =
     (if n < 10 then [''0123456789'' ! n]
      else string_of_nat (n div 10) @ [''0123456789'' ! (n mod 10)])"

declare string_of_nat.simps [simp del]

text \<open>
  \<open>jl_get_global_for\<close>. An address that is registered gives its placeholder, prepared
  in the module \<open>M\<close>. Any other gives a new external variable named by the prefix and
  the counter, which is then counted up; the variable goes through
  \<open>jl_emit_and_add_to_shadow\<close>, and its cell is set to the address.
\<close>

definition jl_get_global_for ::
  "string \<Rightarrow> nat \<Rightarrow> module \<Rightarrow> llvm_type \<Rightarrow> codegen_state
     \<Rightarrow> abort + ((string \<times> module) \<times> codegen_state)" where
  "jl_get_global_for cname addr M T s =
     (case map_of (jl_value_to_llvm s) addr of
        Some it \<Rightarrow>
          (let (local, M') = prepare_global_in M (gv it)
           in Inr ((gv_name local, M'), s))
      | None \<Rightarrow>
          (let gvname = cname @ string_of_nat (globalUnique s);
               s1 = s\<lparr>globalUnique := globalUnique s + 1\<rparr>;
               g = \<lparr>gv_name = gvname, gv_is_function = False, gv_elem_type = T, gv_init = None,
                    gv_linkage = ExternalLinkage, gv_constant = False, gv_align = 0\<rparr>;
               M' = M\<lparr>m_globals := m_globals M @ [g]\<rparr>
           in case jl_emit_and_add_to_shadow g addr s1 of
                Inl e \<Rightarrow> Inl e
              | Inr (slot, s2) \<Rightarrow> Inr ((gvname, M'), s2\<lparr>slots := (slots s2)[slot := addr]\<rparr>)))"

text \<open>\<open>jl_get_llvm_gv\<close>: the index registered for an address, 0 when there is none.\<close>

definition jl_get_llvm_gv :: "codegen_state \<Rightarrow> nat \<Rightarrow> 32 word" where
  "jl_get_llvm_gv s p =
     (case map_of (jl_value_to_llvm s) p of None \<Rightarrow> 0 | Some it \<Rightarrow> index it)"


section \<open>Sessions\<close>

text \<open>
  \<open>jl_native_code_desc_t\<close>: the private module, the function table and the snapshot of
  the global table (both hold the globals by name), and for each method instance the tuple
  that \<open>jl_create_native\<close> stores for it.
\<close>

record jl_native_code_desc_t =
  data_M :: module
  jl_sysimg_fvars :: "string list"
  data_jl_sysimg_gvars :: "string list"
  jl_fvar_map :: "(nat, 8 word \<times> 32 word \<times> 32 word) std_map"

text \<open>
  \<open>jl_get_function_id\<close>. The three output locations are passed in with what they hold
  and returned with what they hold afterwards.
\<close>

definition jl_get_function_id ::
  "jl_native_code_desc_t \<Rightarrow> nat \<Rightarrow> 8 word \<times> 32 word \<times> 32 word \<Rightarrow> 8 word \<times> 32 word \<times> 32 word" where
  "jl_get_function_id data linfo out =
     (case map_of (jl_fvar_map data) linfo of
        Some it \<Rightarrow> it
      | None \<Rightarrow> out)"

section \<open>The compilation driver\<close>

text \<open>
  Modelled from the spec: \<open>jl_llvm_functions_t\<close> is declared outside this file. The
  code-generation engine returns the name of the generic entry point and the name of the
  type-specialized entry point, which is empty when there is none.
\<close>

record jl_llvm_functions_t =
  functionObject :: string
  specFunctionObject :: string

text \<open>
  \<open>jl_compile_result_t\<close>: the module of the compiled code (a null pointer when code
  generation failed), the declarations, the return type and the calling convention flag.
\<close>

type_synonym jl_compile_result_t = "module option \<times> jl_llvm_functions_t \<times> nat \<times> 8 word"

text \<open>
  The functions of the runtime that \<open>jl_create_native\<close> calls and this file does not
  define are parameters. Those that run the compiler take the process-wide state and
  return it. \<open>jl_type_infer\<close> gets the method instance by reference and returns the one
  it leaves there with the inferred code. The parameters are total functions: a call of
  the runtime that does not return is outside the embedding.
\<close>

record runtime =
  jl_nothing :: nat
  jl_is_code_info :: "nat \<Rightarrow> bool"
  jl_uncompress_ast :: "nat \<Rightarrow> nat \<Rightarrow> nat"
  jl_type_infer :: "nat \<Rightarrow> nat \<Rightarrow> codegen_state \<Rightarrow> (nat \<times> nat) \<times> codegen_state"
  jl_compile_linfo1 ::
    "nat \<Rightarrow> nat \<Rightarrow> nat \<Rightarrow> nat list \<Rightarrow> codegen_state
       \<Rightarrow> (jl_compile_result_t \<times> nat list) \<times> codegen_state"
  jl_compile_workqueue ::
    "nat \<Rightarrow> (nat, jl_compile_result_t) std_map \<Rightarrow> nat list \<Rightarrow> codegen_state
       \<Rightarrow> ((nat, jl_compile_result_t) std_map \<times> nat list) \<times> codegen_state"
  jl_merge_module :: "module \<Rightarrow> module \<Rightarrow> module"

text \<open>
  The locals of the two passes. \<open>codegen_calls\<close> is not a variable of the source: it
  lists the calls of \<open>jl_compile_linfo1\<close> that \<open>jl_create_native\<close> makes, each with the
  method instance and whether the result had a module.
\<close>

record driver =
  emitted :: "(nat, jl_compile_result_t) std_map"
  workqueue :: "nat list"
  codegen_calls :: "(nat \<times> bool) list"

text \<open>The body of the loop over the array \<open>methods\<close>, for one element.\<close>

definition jl_create_native_root ::
  "runtime \<Rightarrow> nat \<Rightarrow> nat \<Rightarrow> nat \<Rightarrow> driver \<times> codegen_state \<Rightarrow> driver \<times> codegen_state" where
  "jl_create_native_root rt worlds world mi0 ds =
     (let d = fst ds; s = snd ds; m = method_instances s mi0 in
      if (worlds = 1 \<or> max_world m < jl_world_counter s)
         \<and> min_world m \<le> world \<and> world \<le> max_world m
      then
        let src0 = inferred m;
            src1 = (if src0 \<noteq> 0 \<and> src0 \<noteq> jl_nothing rt
                    then jl_uncompress_ast rt (def_method m) src0 else src0);
            inf = (if src1 = 0 \<or> \<not> jl_is_code_info rt src1
                   then jl_type_infer rt mi0 world s else ((mi0, src1), s));
            mi = fst (fst inf); src = snd (fst inf); s1 = snd inf
        in if \<not> map_count (emitted d) mi then
             let r = jl_compile_linfo1 rt mi src world (workqueue d) s1;
                 result = fst (fst r)
             in (d\<lparr>emitted := (if fst result \<noteq> None
                                 then map_assign mi result (emitted d) else emitted d),
                    workqueue := snd (fst r),
                    codegen_calls := codegen_calls d @ [(mi, fst result \<noteq> None)]\<rparr>,
                 snd r)
           else (d, s1)
      else (d, s))"

text \<open>
  The body of the loop over \<open>worlds\<close>: the world of the pass, no pass when it is 0, the
  roots in order, then the work queue.
\<close>

definition jl_create_native_pass ::
  "runtime \<Rightarrow> nat list \<Rightarrow> nat \<Rightarrow> driver \<times> codegen_state \<Rightarrow> driver \<times> codegen_state" where
  "jl_create_native_pass rt methods worlds ds =
     (let world = (if worlds = 1 then jl_world_counter (snd ds) else jl_typeinf_world (snd ds)) in
      if world = 0 then ds
      else
        let ds1 = fold (jl_create_native_root rt worlds world) methods ds;
            r = jl_compile_workqueue rt world (emitted (fst ds1)) (workqueue (fst ds1)) (snd ds1)
        in ((fst ds1)\<lparr>emitted := fst (fst r), workqueue := snd (fst r)\<rparr>, snd r))"

text \<open>LLVM's \<open>cast<Function>\<close>: the value must be there and be a function.\<close>

definition cast_Function :: "global_value option \<Rightarrow> abort + global_value" where
  "cast_Function v =
     (case v of
        None \<Rightarrow> Inl CastFailed
      | Some g \<Rightarrow> if gv_is_function g then Inr g else Inl CastFailed)"

text \<open>
  The body of the loop over \<open>emitted\<close>, for one entry. The state of the loop is the
  clone, the session and (not a variable of the source) the list of the entries merged so
  far.
\<close>

definition jl_create_native_merge ::
  "runtime \<Rightarrow> codegen_state \<Rightarrow> nat \<times> jl_compile_result_t
     \<Rightarrow> module \<times> jl_native_code_desc_t \<times> (nat \<times> jl_compile_result_t) list
     \<Rightarrow> abort + (module \<times> jl_native_code_desc_t \<times> (nat \<times> jl_compile_result_t) list)" where
  "jl_create_native_merge rt s def st =
     (case def of (this_li, (frag, decls, rettype', api)) \<Rightarrow>
     (case st of (clone0, data, merged) \<Rightarrow>
     (case frag of
        None \<Rightarrow> Inl NullDereference
      | Some fragment \<Rightarrow>
         (let clone = jl_merge_module rt clone0 fragment in
          (case cast_Function (getNamedValue clone (functionObject decls)) of
             Inl e \<Rightarrow> Inl e
           | Inr func \<Rightarrow>
              (case (if functionObject decls \<noteq> []
                     then map_sum id Some
                            (cast_Function (getNamedValue clone (functionObject decls)))
                     else Inr None) of
                 Inl e \<Rightarrow> Inl e
               | Inr cfunc \<Rightarrow>
                  (let fvars0 = jl_sysimg_fvars data;
                       fvars1 = (case cfunc of
                                   Some c \<Rightarrow>
                                     if rettype (method_instances s this_li) = rettype'
                                     then fvars0 @ [gv_name c] else fvars0
                                 | None \<Rightarrow> fvars0);
                       cfunc_id = (case cfunc of
                                     Some c \<Rightarrow>
                                       if rettype (method_instances s this_li) = rettype'
                                       then word_of_nat (length fvars1) else 0
                                   | None \<Rightarrow> 0);
                       fvars2 = fvars1 @ [gv_name func];
                       func_id = word_of_nat (length fvars2)
                   in Inr (clone,
                           data\<lparr>jl_sysimg_fvars := fvars2,
                                jl_fvar_map :=
                                  map_assign this_li (api, cfunc_id, func_id) (jl_fvar_map data)\<rparr>,
                           merged @ [def]))))))))"

fun jl_create_native_merge_all ::
  "runtime \<Rightarrow> codegen_state \<Rightarrow> (nat \<times> jl_compile_result_t) list
     \<Rightarrow> module \<times> jl_native_code_desc_t \<times> (nat \<times> jl_compile_result_t) list
     \<Rightarrow> abort + (module \<times> jl_native_code_desc_t \<times> (nat \<times> jl_compile_result_t) list)" where
  "jl_create_native_merge_all rt s [] st = Inr st"
| "jl_create_native_merge_all rt s (def # defs) st =
     (case jl_create_native_merge rt s def st of
        Inl e \<Rightarrow> Inl e
      | Inr st' \<Rightarrow> jl_create_native_merge_all rt s defs st')"

text \<open>
  The loop that maps the snapshot of the global table into the clone. \<open>CloneModule\<close> fills
  the value map for the globals of the shadow module, so a name that is not among them
  maps to a null pointer, on which the cast stops.
\<close>

fun remap_gvars :: "module \<Rightarrow> string list \<Rightarrow> abort + string list" where
  "remap_gvars shadow [] = Inr []"
| "remap_gvars shadow (v # vs) =
     (case getNamedValue shadow v of
        None \<Rightarrow> Inl CastFailed
      | Some g \<Rightarrow>
          (case remap_gvars shadow vs of
             Inl e \<Rightarrow> Inl e
           | Inr vs' \<Rightarrow> Inr (gv_name g # vs')))"

text \<open>
  \<open>jl_create_native\<close>: the two passes (\<open>worlds\<close> 2, then 1), the clone of the shadow
  module, the merge of every emitted entry in the order of the map, internal linkage for
  every function with a body, and the snapshot of the global table. The result is the
  session, with the two lists that are not variables of the source (the calls of the
  code generator and the merged entries), and the state.
\<close>

definition jl_create_native ::
  "runtime \<Rightarrow> nat list \<Rightarrow> codegen_state
     \<Rightarrow> abort + ((jl_native_code_desc_t \<times> (nat \<times> bool) list
                 \<times> (nat \<times> jl_compile_result_t) list) \<times> codegen_state)" where
  "jl_create_native rt methods s =
     (let ds = fold (jl_create_native_pass rt methods) [2, 1]
                 (\<lparr>emitted = [], workqueue = [], codegen_calls = []\<rparr>, s);
          d = fst ds; s1 = snd ds;
          data0 = \<lparr>data_M = \<lparr>m_globals = [], m_triple = [], m_layout = []\<rparr>,
                   jl_sysimg_fvars = [], data_jl_sysimg_gvars = [], jl_fvar_map = []\<rparr>
      in (case jl_create_native_merge_all rt s1 (map_entries (emitted d))
                 (shadow_output s1, data0, []) of
            Inl e \<Rightarrow> Inl e
          | Inr (clone, data, merged) \<Rightarrow>
             (let clone' = clone\<lparr>m_globals :=
                    map (\<lambda>F. if gv_is_function F \<and> \<not> isDeclaration F
                              then addComdat (F\<lparr>gv_linkage := InternalLinkage\<rparr>) else F)
                        (m_globals clone)\<rparr>
              in (case remap_gvars (shadow_output s1) (jl_sysimg_gvars s1) of
                    Inl e \<Rightarrow> Inl e
                  | Inr gvars \<Rightarrow>
                      Inr ((data\<lparr>data_jl_sysimg_gvars := gvars, data_M := clone'\<rparr>,
                            codegen_calls d, merged), s1)))))"


section \<open>The offset tables\<close>

text \<open>
  \<open>emit_offset_table\<close>: the assertion, then one constant external array of the
  variables' addresses, in the order of the list, appended to the module.
\<close>

definition emit_offset_table :: "module \<Rightarrow> string list \<Rightarrow> string \<Rightarrow> abort + module" where
  "emit_offset_table mod0 vars name =
     (if vars = [] then Inl AssertionFailed
      else
        let addrs = map BitCast vars
        in Inr (mod0\<lparr>m_globals := m_globals mod0 @
                  [\<lparr>gv_name = name, gv_is_function = False, gv_elem_type = ScalarTy,
                    gv_init = Some (ConstantArray addrs), gv_linkage = ExternalLinkage,
                    gv_constant = True, gv_align = 0\<rparr>]\<rparr>))"

text \<open>
  \<open>jl_gen_llvm_globaldata\<close>. \<open>size_bits\<close> is the width of \<open>T_size\<close> (64 when
  \<open>sizeof(size_t)\<close> is 8, else 32); \<open>ConstantInt::get\<close> keeps that many bits of its
  value. The payload is the first \<open>sysimg_len\<close> bytes at \<open>sysimg_data\<close>, which is
  \<open>None\<close> for a null pointer.
\<close>

definition jl_gen_llvm_globaldata ::
  "nat \<Rightarrow> jl_native_code_desc_t \<Rightarrow> 8 word list option \<Rightarrow> nat \<Rightarrow> codegen_state
     \<Rightarrow> abort + jl_native_code_desc_t" where
  "jl_gen_llvm_globaldata sizeof_size_t data sysimg_data sysimg_len s =
     (let size_bits = (if sizeof_size_t = 8 then 64 else 32 :: nat) in
      (case emit_offset_table (data_M data) (data_jl_sysimg_gvars data) ''jl_sysimg_gvars'' of
         Inl e \<Rightarrow> Inl e
       | Inr mod1 \<Rightarrow>
          (case emit_offset_table mod1 (jl_sysimg_fvars data) ''jl_sysimg_fvars'' of
             Inl e \<Rightarrow> Inl e
           | Inr mod2 \<Rightarrow>
              (let mod3 = mod2\<lparr>m_globals := m_globals mod2 @
                     [addComdat
                        \<lparr>gv_name = ''jl_globalUnique'', gv_is_function = False,
                         gv_elem_type = ScalarTy,
                         gv_init = Some (ConstantInt size_bits
                                           ((globalUnique s + 1) mod 2 ^ size_bits)),
                         gv_linkage = ExternalLinkage, gv_constant = True, gv_align = 0\<rparr>]\<rparr>
               in (case getNamedValue mod3 ''jl_RTLD_DEFAULT_handle'' of
                     None \<Rightarrow> Inl NullDereference
                   | Some jlRTLD_DEFAULT_var \<Rightarrow>
                      (let mod4 = mod3\<lparr>m_globals := m_globals mod3 @
                             [addComdat
                                \<lparr>gv_name = ''jl_RTLD_DEFAULT_handle_pointer'',
                                 gv_is_function = False, gv_elem_type = PointerTy,
                                 gv_init = Some (GlobalAddress (gv_name jlRTLD_DEFAULT_var)),
                                 gv_linkage = ExternalLinkage, gv_constant = True,
                                 gv_align = 0\<rparr>]\<rparr>;
                           mod5 =
                             (case sysimg_data of
                                None \<Rightarrow> mod4
                              | Some bytes \<Rightarrow>
                                  mod4\<lparr>m_globals := m_globals mod4 @
                                    [(addComdat
                                        \<lparr>gv_name = ''jl_system_image_data'',
                                         gv_is_function = False, gv_elem_type = ScalarTy,
                                         gv_init = Some (ConstantDataArray (take sysimg_len bytes)),
                                         gv_linkage = ExternalLinkage, gv_constant = False,
                                         gv_align = 0\<rparr>)\<lparr>gv_align := 64\<rparr>,
                                     addComdat
                                       \<lparr>gv_name = ''jl_system_image_size'',
                                        gv_is_function = False, gv_elem_type = ScalarTy,
                                        gv_init = Some (ConstantInt size_bits
                                                          (sysimg_len mod 2 ^ size_bits)),
                                        gv_linkage = ExternalLinkage, gv_constant = True,
                                        gv_align = 0\<rparr>]\<rparr>)
                       in Inr (data\<lparr>data_M := mod5\<rparr>)))))))"

section \<open>Native artifact emission\<close>

text \<open>
  What \<open>jl_dump_native\<close> reads from outside the file: the result of opening a file for
  writing (the message of the error code, \<open>None\<close> when there is no error), whether
  \<open>addPassesToEmitFile\<close> returns true (the target cannot emit an object file), the
  triple and data layout of the new target machine, \<open>sizeof(size_t)\<close> and the
  optimization level of the options.
\<close>

record target_env =
  openFileForWrite :: "string \<Rightarrow> string option"
  addPassesToEmitFile :: bool
  TM_triple :: string
  TM_layout :: string
  sizeof_size_t :: nat
  opt_level :: nat

text \<open>The three output streams of \<open>jl_dump_native\<close>, and the passes it adds.\<close>

datatype stream = unopt_bc_OS | bc_OS | obj_OS

datatype pass =
    TargetPasses
  | BitcodeWriterPass stream
  | OptimizationPasses nat
  | ObjectFilePasses stream

text \<open>
  Modelled from the spec: running the pipeline writes the outputs of its writer passes,
  in the order of the pipeline.
\<close>

fun PM_run :: "pass list \<Rightarrow> stream list" where
  "PM_run [] = []"
| "PM_run (BitcodeWriterPass os # PM) = os # PM_run PM"
| "PM_run (ObjectFilePasses os # PM) = os # PM_run PM"
| "PM_run (p # PM) = PM_run PM"

text \<open>
  What a call of \<open>jl_dump_native\<close> leaves behind: the lines printed by
  \<open>jl_safe_printf\<close>, the pipeline, the module the pipeline ran on and the streams it
  wrote.
\<close>

record dump_result =
  printed :: "string list"
  PM :: "pass list"
  ran_on :: module
  written :: "stream list"

text \<open>The message built when a file cannot be opened; empty when it can.\<close>

definition open_err :: "target_env \<Rightarrow> string \<Rightarrow> string \<Rightarrow> string" where
  "open_err env flag fname =
     (case openFileForWrite env fname of
        None \<Rightarrow> []
      | Some message \<Rightarrow>
          ''ERROR: failed to open '' @ flag @ '' file '' @ [CHR 0x27] @ fname @ [CHR 0x27]
            @ '': '' @ message)"

text \<open>
  \<open>jl_dump_native\<close>. File names are \<open>None\<close> for a null pointer. Each of the three
  blocks opens its file and either prints the error or adds its pass. The module gets the
  triple and the data layout of the target machine (the layout with the suffix that the
  source adds from LLVM 4.0 on). In imaging mode the global data is added to the module.
  Then the pipeline runs and imaging mode is switched off.
\<close>

definition jl_dump_native ::
  "target_env \<Rightarrow> jl_native_code_desc_t \<Rightarrow> string option \<Rightarrow> string option \<Rightarrow> string option
     \<Rightarrow> 8 word list option \<Rightarrow> nat \<Rightarrow> codegen_state \<Rightarrow> abort + (dump_result \<times> codegen_state)" where
  "jl_dump_native env data bc_fname unopt_bc_fname obj_fname sysimg_data sysimg_len s =
     (let PM0 = [TargetPasses];
          out0 = [];
          (PM1, out1) =
            (case unopt_bc_fname of
               None \<Rightarrow> (PM0, out0)
             | Some fname \<Rightarrow>
                 (let err = open_err env ''--output-unopt-bc'' fname in
                  if err \<noteq> [] then (PM0, out0 @ [err @ [CHR 0x0A]])
                  else (PM0 @ [BitcodeWriterPass unopt_bc_OS], out0)));
          PM2 = (if bc_fname \<noteq> None \<or> obj_fname \<noteq> None
                 then PM1 @ [OptimizationPasses (opt_level env)] else PM1);
          (PM3, out3) =
            (case bc_fname of
               None \<Rightarrow> (PM2, out1)
             | Some fname \<Rightarrow>
                 (let err = open_err env ''--output-bc'' fname in
                  if err \<noteq> [] then (PM2, out1 @ [err @ [CHR 0x0A]])
                  else (PM2 @ [BitcodeWriterPass bc_OS], out1)));
          (PM4, out4) =
            (case obj_fname of
               None \<Rightarrow> (PM3, out3)
             | Some fname \<Rightarrow>
                 (let err = open_err env ''--output-o'' fname in
                  if err \<noteq> [] then (PM3, out3 @ [err @ [CHR 0x0A]])
                  else if addPassesToEmitFile env
                  then (PM3, out3 @
                          [''ERROR: target does not support generation of object files''
                             @ [CHR 0x0A]])
                  else (PM3 @ [ObjectFilePasses obj_OS], out3)));
          data1 = data\<lparr>data_M := (data_M data)
                    \<lparr>m_triple := TM_triple env, m_layout := TM_layout env @ ''-ni:10:11:12''\<rparr>\<rparr>
      in (case (if imaging_mode s
                then jl_gen_llvm_globaldata (sizeof_size_t env) data1 sysimg_data sysimg_len s
                else Inr data1) of
            Inl e \<Rightarrow> Inl e
          | Inr data2 \<Rightarrow>
              Inr (\<lparr>printed = out4, PM = PM4, ran_on = data_M data2, written = PM_run PM4\<rparr>,
                   s\<lparr>imaging_mode := False\<rparr>)))"


text \<open>
  A session is created and then emitted: \<open>jl_create_native\<close> followed by
  \<open>jl_dump_native\<close> on its result.
\<close>

definition create_and_dump ::
  "runtime \<Rightarrow> nat list \<Rightarrow> target_env \<Rightarrow> string option \<Rightarrow> string option \<Rightarrow> string option
     \<Rightarrow> 8 word list option \<Rightarrow> nat \<Rightarrow> codegen_state \<Rightarrow> abort + (dump_result \<times> codegen_state)" where
  "create_and_dump rt methods env bc_fname unopt_bc_fname obj_fname sysimg_data sysimg_len s =
     (case jl_create_native rt methods s of
        Inl e \<Rightarrow> Inl e
      | Inr (session, s1) \<Rightarrow>
          jl_dump_native env (fst session) bc_fname unopt_bc_fname obj_fname
            sysimg_data sysimg_len s1)"

section \<open>A concrete process\<close>

text \<open>
  A process just started in imaging mode: nothing registered, the shadow module holds
  the declaration of the runtime handle, the current world is 5 and inference runs in
  world 3. Every method instance is valid in the worlds 1 to 7, has no inferred code yet
  and the return type at address 100.
\<close>

definition example_handle :: global_value where
  "example_handle =
     \<lparr>gv_name = ''jl_RTLD_DEFAULT_handle'', gv_is_function = False, gv_elem_type = PointerTy,
      gv_init = None, gv_linkage = ExternalLinkage, gv_constant = False, gv_align = 0\<rparr>"

definition example_state :: codegen_state where
  "example_state =
     \<lparr>imaging_mode = True, globalUnique = 0, jl_sysimg_gvars = [], jl_value_to_llvm = [],
      shadow_output = \<lparr>m_globals = [example_handle], m_triple = ''x86_64'', m_layout = ''e''\<rparr>,
      global_mapping = [], slots = [], jl_world_counter = 5, jl_typeinf_world = 3,
      method_instances =
        (\<lambda>a. \<lparr>min_world = 1, max_world = 7, inferred = 0, rettype = 100, def_method = 0\<rparr>)\<rparr>"

text \<open>
  A runtime for it. Inference always succeeds. Code generation fails for the method
  instance 9; for 8 it gives a generic and a specialized entry point, for any other only a
  generic one; the declared return type is always the one at address 100. Nothing is
  queued, and merging appends the globals of the fragment.
\<close>

definition example_function :: "string \<Rightarrow> global_value" where
  "example_function n =
     \<lparr>gv_name = n, gv_is_function = True, gv_elem_type = ScalarTy, gv_init = Some FunctionBody,
      gv_linkage = ExternalLinkage, gv_constant = False, gv_align = 0\<rparr>"

definition example_compile :: "nat \<Rightarrow> jl_compile_result_t" where
  "example_compile mi =
     (if mi = 9 then (None, \<lparr>functionObject = [], specFunctionObject = []\<rparr>, 0, 0)
      else if mi = 8 then
        (Some \<lparr>m_globals = [example_function ''julia_8'', example_function ''jlcall_8''],
               m_triple = [], m_layout = []\<rparr>,
         \<lparr>functionObject = ''jlcall_8'', specFunctionObject = ''julia_8''\<rparr>, 100, 1)
      else
        (Some \<lparr>m_globals = [example_function ''jlcall_7''], m_triple = [], m_layout = []\<rparr>,
         \<lparr>functionObject = ''jlcall_7'', specFunctionObject = []\<rparr>, 100, 1))"

definition example_runtime :: runtime where
  "example_runtime =
     \<lparr>jl_nothing = 1,
      jl_is_code_info = (\<lambda>v. 1000 \<le> v),
      jl_uncompress_ast = (\<lambda>m v. v),
      jl_type_infer = (\<lambda>mi world s. ((mi, 1000 + mi), s)),
      jl_compile_linfo1 = (\<lambda>mi src world wq s. ((example_compile mi, wq), s)),
      jl_compile_workqueue = (\<lambda>world em wq s. ((em, []), s)),
      jl_merge_module = (\<lambda>dest src. dest\<lparr>m_globals := m_globals dest @ m_globals src\<rparr>)\<rparr>"

text \<open>
  The same process with a method instance, 6, that is valid in the worlds 1 to 4 only, so
  that it is a root of the pass for the inference world and of no other; and the same
  runtime with a work queue drain that, in the inference world, compiles the method
  instance 8 and stores the result in \<open>emitted\<close>.
\<close>

definition example_two_worlds :: codegen_state where
  "example_two_worlds =
     example_state\<lparr>method_instances :=
       (\<lambda>a. \<lparr>min_world = 1, max_world = (if a = 6 then 4 else 7), inferred = 0,
              rettype = 100, def_method = 0\<rparr>)\<rparr>"

definition example_runtime_queue :: runtime where
  "example_runtime_queue =
     example_runtime\<lparr>jl_compile_workqueue :=
       (\<lambda>world em wq s.
          ((if world = 3 then map_assign 8 (example_compile 8) em else em, []), s))\<rparr>"

text \<open>A target on which one path cannot be opened for writing.\<close>

definition example_env :: target_env where
  "example_env =
     \<lparr>openFileForWrite =
        (\<lambda>f. if f = ''/missing/sys.bc'' then Some ''No such file or directory'' else None),
      addPassesToEmitFile = False,
      TM_triple = ''x86_64-unknown-linux-gnu'',
      TM_layout = ''e-m:e-i64:64'',
      sizeof_size_t = 8,
      opt_level = 2\<rparr>"


text \<open>
  The same process after one value, at address 4096, got its placeholder, and the
  session made then from the root 7.
\<close>

definition example_registered :: codegen_state where
  "example_registered =
     (case jl_get_global_for ''jl_global#'' 4096
             \<lparr>m_globals = [], m_triple = [], m_layout = []\<rparr> PointerTy example_state of
        Inl e \<Rightarrow> example_state
      | Inr r \<Rightarrow> snd r)"

definition example_session :: jl_native_code_desc_t where
  "example_session =
     (case jl_create_native example_runtime [7] example_registered of
        Inl e \<Rightarrow> \<lparr>data_M = \<lparr>m_globals = [], m_triple = [], m_layout = []\<rparr>,
                  jl_sysimg_fvars = [], data_jl_sysimg_gvars = [], jl_fvar_map = []\<rparr>
      | Inr r \<Rightarrow> fst (fst r))"


section \<open>Notions of the specification\<close>



text \<open>
  The registry's high-water index: the largest index that a registered address has, 0
  when nothing is registered.
\<close>

definition registry_high_water :: "codegen_state \<Rightarrow> nat" where
  "registry_high_water s =
     fold max (map (\<lambda>e. nat (sint (index (snd e)))) (jl_value_to_llvm s)) 0"

text \<open>
  A list of calls of the code generator is in order when no method instance is passed
  again after a call for it that gave a module.
\<close>

definition calls_ok :: "(nat \<times> bool) list \<Rightarrow> bool" where
  "calls_ok calls =
     (\<forall>i j. i < j \<longrightarrow> j < length calls \<longrightarrow> snd (calls ! i)
        \<longrightarrow> fst (calls ! j) \<noteq> fst (calls ! i))"

text \<open>
  The invariant of the two passes of \<open>jl_create_native\<close>: the calls so far are in
  order, and every method instance whose call gave a module is in \<open>emitted\<close>.
\<close>

definition driver_inv :: "driver \<Rightarrow> bool" where
  "driver_inv d =
     (calls_ok (codegen_calls d) \<and>
      (\<forall>mi. (mi, True) \<in> set (codegen_calls d) \<longrightarrow> map_count (emitted d) mi))"

text \<open>
  A name prefix is unambiguous when it does not end in a digit: then the counter can be
  read back from the end of the name.
\<close>

definition prefix_ok :: "string \<Rightarrow> bool" where
  "prefix_ok cname = (cname = [] \<or> last cname \<notin> set ''0123456789'')"

text \<open>
  The invariant of the registry that keeps placeholders apart: every registered
  placeholder is named by an unambiguous prefix and a value the counter has passed, and
  two addresses never share a name.
\<close>

definition registry_names_ok :: "codegen_state \<Rightarrow> bool" where
  "registry_names_ok s =
     ((\<forall>a e. map_of (jl_value_to_llvm s) a = Some e \<longrightarrow>
         (\<exists>p k. prefix_ok p \<and> k < globalUnique s \<and> gv_name (gv e) = p @ string_of_nat k))
      \<and> (\<forall>a e a' e'. map_of (jl_value_to_llvm s) a = Some e \<longrightarrow>
            map_of (jl_value_to_llvm s) a' = Some e' \<longrightarrow> a \<noteq> a'
            \<longrightarrow> gv_name (gv e) \<noteq> gv_name (gv e')))"

text \<open>
  \<open>jl_get_global_for\<close> called twice with the same arguments, the second time on the
  module and state the first call left: the two symbols returned.
\<close>

definition intern_twice ::
  "string \<Rightarrow> nat \<Rightarrow> module \<Rightarrow> llvm_type \<Rightarrow> codegen_state \<Rightarrow> abort + (string \<times> string)" where
  "intern_twice cname addr M T s =
     (case jl_get_global_for cname addr M T s of
        Inl e \<Rightarrow> Inl e
      | Inr r1 \<Rightarrow>
          (case jl_get_global_for cname addr (snd (fst r1)) T (snd r1) of
             Inl e \<Rightarrow> Inl e
           | Inr r2 \<Rightarrow> Inr (fst (fst r1), fst (fst r2))))"

text \<open>
  The invariant that ties the registry to the global table: every registered address has
  the index of a position of \<open>jl_sysimg_gvars\<close> (counted from 1) that holds its
  placeholder, and every position is the index of a registered address.
\<close>

definition registry_index_ok :: "codegen_state \<Rightarrow> bool" where
  "registry_index_ok s =
     ((\<forall>a e. map_of (jl_value_to_llvm s) a = Some e \<longrightarrow>
         (\<exists>k. k < length (jl_sysimg_gvars s) \<and> index e = word_of_nat (Suc k)
              \<and> jl_sysimg_gvars s ! k = gv_name (gv e)))
      \<and> (\<forall>k. k < length (jl_sysimg_gvars s) \<longrightarrow>
            (\<exists>a e. map_of (jl_value_to_llvm s) a = Some e \<and> index e = word_of_nat (Suc k))))"

text \<open>
  The invariant of the merge loop, on the function table \<open>F\<close>, the map \<open>m\<close> and
  the entries merged so far: the tuple of a method instance belongs to a merged entry,
  its last component is the index of a position that holds the entry's
  \<open>functionObject\<close>, and so is its middle component unless it is 0; every position is
  the index in some tuple; and only merged method instances have a tuple.
\<close>

definition fvars_index_ok ::
  "string list \<Rightarrow> (nat, 8 word \<times> 32 word \<times> 32 word) std_map
     \<Rightarrow> (nat \<times> jl_compile_result_t) list \<Rightarrow> bool" where
  "fvars_index_ok F m merged =
     ((\<forall>li api c f. map_of m li = Some (api, c, f) \<longrightarrow>
         (\<exists>frag decls rt'. (li, (frag, decls, rt', api)) \<in> set merged
            \<and> (\<exists>k. k < length F \<and> f = word_of_nat (Suc k) \<and> F ! k = functionObject decls)
            \<and> (c = 0 \<or> (\<exists>k. k < length F \<and> c = word_of_nat (Suc k)
                              \<and> F ! k = functionObject decls))))
      \<and> (\<forall>k. k < length F \<longrightarrow>
            (\<exists>li api c f. map_of m li = Some (api, c, f)
               \<and> (f = word_of_nat (Suc k) \<or> c = word_of_nat (Suc k))))
      \<and> (\<forall>li. map_count m li \<longrightarrow> li \<in> fst ` set merged))"

text \<open>
  \<open>later P s s'\<close>: the state \<open>s'\<close> is reached from \<open>s\<close> by calls of
  \<open>jl_get_global_for\<close> whose name prefixes satisfy \<open>P\<close>, and by calls of
  \<open>jl_dump_native\<close>, in any number and order.
\<close>

inductive later :: "(string \<Rightarrow> bool) \<Rightarrow> codegen_state \<Rightarrow> codegen_state \<Rightarrow> bool"
  for P :: "string \<Rightarrow> bool" where
  later_refl: "later P s s"
| later_intern:
    "later P s s1 \<Longrightarrow> P c \<Longrightarrow> jl_get_global_for c a M T s1 = Inr (r, s2) \<Longrightarrow> later P s s2"
| later_dump:
    "later P s s1 \<Longrightarrow> jl_dump_native env data bc unopt obj sd sl s1 = Inr (r, s2)
       \<Longrightarrow> later P s s2"

section \<open>Evaluating the concrete process\<close>

lemmas example_defs =
  example_state_def example_runtime_def example_compile_def example_function_def
  example_handle_def example_env_def

lemmas create_defs =
  jl_create_native_def jl_create_native_pass_def jl_create_native_root_def
  jl_create_native_merge_def cast_Function_def getNamedValue_def map_count_def
  map_entries_def isDeclaration_def addComdat_def Let_def

lemmas registry_defs =
  jl_get_global_for_def jl_emit_and_add_to_shadow_def global_proto_def prepare_global_in_def

lemmas dump_defs =
  jl_dump_native_def jl_gen_llvm_globaldata_def emit_offset_table_def open_err_def

lemma example_registered_eq:
  "example_registered =
     example_state
       \<lparr>globalUnique := 1,
        jl_sysimg_gvars := [''jl_global#0''],
        jl_value_to_llvm :=
          [(4096, \<lparr>gv = \<lparr>gv_name = ''jl_global#0'', gv_is_function = False,
                          gv_elem_type = PointerTy, gv_init = None,
                          gv_linkage = ExternalLinkage, gv_constant = False, gv_align = 0\<rparr>,
                   index = 1\<rparr>)],
        shadow_output :=
          \<lparr>m_globals =
             [example_handle,
              \<lparr>gv_name = ''jl_global#0'', gv_is_function = False, gv_elem_type = PointerTy,
               gv_init = Some ConstantPointerNull, gv_linkage = InternalLinkage,
               gv_constant = False, gv_align = 0\<rparr>],
           m_triple = ''x86_64'', m_layout = ''e''\<rparr>,
        global_mapping := [(''jl_global#0'', 0)],
        slots := [4096]\<rparr>"
  by (simp add: example_registered_def registry_defs example_state_def addComdat_def Let_def
        string_of_nat.simps)

lemma example_session_eq:
  "example_session =
     \<lparr>data_M =
        \<lparr>m_globals =
           [example_handle,
            \<lparr>gv_name = ''jl_global#0'', gv_is_function = False, gv_elem_type = PointerTy,
             gv_init = Some ConstantPointerNull, gv_linkage = InternalLinkage,
             gv_constant = False, gv_align = 0\<rparr>,
            (example_function ''jlcall_7'')\<lparr>gv_linkage := InternalLinkage\<rparr>],
         m_triple = ''x86_64'', m_layout = ''e''\<rparr>,
      jl_sysimg_fvars = [''jlcall_7'', ''jlcall_7''],
      data_jl_sysimg_gvars = [''jl_global#0''],
      jl_fvar_map = [(7, 1, 1, 2)]\<rparr>"
  by (simp add: example_session_def example_registered_eq create_defs example_defs)

section \<open>The function table of a session\<close>

text \<open>
  C1 (the code differs from the claim). The claim: a nonzero specialized-entry index is
  recorded for a merged specialization if and only if the engine produced a specialized
  entry point whose return type is the inferred one, and 0 is recorded otherwise. The
  source takes \<open>cfunc\<close> from \<open>decls.functionObject\<close>, the field it has just read for
  \<open>func\<close>. Evaluated at the root 7, for which the engine gives no specialized entry
  point (its name is empty) and the inferred return type: the index recorded for the
  specialized entry is 1, not 0.
\<close>

theorem jl_create_native_generic_only_gets_specialized_index:
  "specFunctionObject (fst (snd (example_compile 7))) = [] \<and>
   rettype (method_instances example_state 7) = fst (snd (snd (example_compile 7))) \<and>
   map_sum id (\<lambda>r. jl_fvar_map (fst (fst r)))
     (jl_create_native example_runtime [7] example_state) = Inr [(7, (1, 1, 2))]"
  by (simp add: create_defs example_defs)

text \<open>
  C2 (the code differs from the claim). The claim: a session from the single root R with
  only a generic entry point has a function table of length 1 and the triple (flag, 0, 1)
  for R. Evaluated at the root 7 (no callees, only a generic entry point, return types
  equal): the function table holds the generic entry point twice and the triple is
  (flag, 1, 2). At the root 8, which has both entry points, the length and the triple are
  as the claim says, but the table again holds the generic entry point twice.
\<close>

theorem jl_create_native_generic_only_table:
  "map_sum id (\<lambda>r. (jl_sysimg_fvars (fst (fst r)), jl_fvar_map (fst (fst r))))
     (jl_create_native example_runtime [7] example_state)
   = Inr ([''jlcall_7'', ''jlcall_7''], [(7, (1, 1, 2))])
   \<and> map_sum id (\<lambda>r. (jl_sysimg_fvars (fst (fst r)), jl_fvar_map (fst (fst r))))
     (jl_create_native example_runtime [8] example_state)
   = Inr ([''jlcall_8'', ''jlcall_8''], [(8, (1, 1, 2))])"
  by (simp add: create_defs example_defs)

section \<open>Looking up the indices of a method instance\<close>

text \<open>
  C10. When \<open>jl_get_function_id\<close> is called with a method instance that the session's
  map does not hold, the three output locations (flag, and the two indices) keep what
  they held: nothing is written and no error is signalled.
\<close>

theorem jl_get_function_id_absent:
  "map_of (jl_fvar_map data) linfo = None \<Longrightarrow>
   jl_get_function_id data linfo (api, func_idx, specfunc_idx) = (api, func_idx, specfunc_idx)"
  by (simp add: jl_get_function_id_def)

theorem jl_get_function_id_absent_witness:
  "map_of (jl_fvar_map example_session) 8 = None \<and>
   jl_get_function_id example_session 8 (3, 4, 5) = (3, 4, 5) \<and>
   jl_get_function_id example_session 7 (3, 4, 5) = (1, 1, 2)"
proof -
  have h: "map_of (jl_fvar_map example_session) 8 = None"
    by (simp add: example_session_eq)
  show ?thesis
    using h jl_get_function_id_absent [OF h, of 3 4 5]
    by (simp add: jl_get_function_id_def example_session_eq)
qed

section \<open>Imaging mode is switched off by an emission\<close>

text \<open>
  C8. After a call of \<open>jl_dump_native\<close> has run its pipeline, imaging mode is off in the
  whole process; so a second call, for any session, destinations and payload, returns,
  leaves the state as it is, and runs its pipeline on a module with exactly the globals
  of the session: no offset table, counter, handle pointer or payload global is added
  again.
\<close>

theorem jl_dump_native_one_shot:
  assumes "jl_dump_native env data bc unopt obj sd sl s = Inr (r, s')"
  shows "\<not> imaging_mode s' \<and>
    (\<exists>r2. jl_dump_native env2 data2 bc2 unopt2 obj2 sd2 sl2 s' = Inr (r2, s')
        \<and> m_globals (ran_on r2) = m_globals (data_M data2))"
proof -
  from assms have s': "s' = s\<lparr>imaging_mode := False\<rparr>"
    by (auto simp: jl_dump_native_def Let_def split: prod.splits sum.splits if_splits)
  then have off: "\<not> imaging_mode s'" by simp
  then show ?thesis
    by (auto simp: jl_dump_native_def Let_def s' split: prod.splits)
qed

theorem jl_dump_native_one_shot_witness:
  "\<exists>r s'. jl_dump_native example_env example_session None None None (Some [1, 2, 3]) 3
             example_registered = Inr (r, s')
     \<and> length (m_globals (ran_on r)) = length (m_globals (data_M example_session)) + 6
     \<and> \<not> imaging_mode s'
     \<and> (\<exists>r2. jl_dump_native example_env example_session None None None (Some [1, 2, 3]) 3 s'
                = Inr (r2, s')
             \<and> m_globals (ran_on r2) = m_globals (data_M example_session))"
proof -
  obtain r s' where
    h: "jl_dump_native example_env example_session None None None (Some [1, 2, 3]) 3
          example_registered = Inr (r, s')"
    and n: "length (m_globals (ran_on r)) = length (m_globals (data_M example_session)) + 6"
    by (simp add: dump_defs example_session_eq example_registered_eq example_defs
          getNamedValue_def addComdat_def Let_def)
  have t: "\<not> imaging_mode s' \<and>
     (\<exists>r2. jl_dump_native example_env example_session None None None (Some [1, 2, 3]) 3 s'
                = Inr (r2, s')
             \<and> m_globals (ran_on r2) = m_globals (data_M example_session))"
    by (rule jl_dump_native_one_shot [OF h])
  show ?thesis
    apply (rule exI [of _ r])
    apply (rule exI [of _ s'])
    apply (intro conjI)
       apply (rule h)
      apply (rule n)
     apply (rule conjunct1 [OF t])
    apply (rule conjunct2 [OF t])
    done
qed


section \<open>The globals added in imaging mode\<close>

lemma emit_offset_table_Inr:
  "emit_offset_table M vars name = Inr M' \<Longrightarrow>
   vars \<noteq> [] \<and> M' = M\<lparr>m_globals := m_globals M @
      [\<lparr>gv_name = name, gv_is_function = False, gv_elem_type = ScalarTy,
        gv_init = Some (ConstantArray (map BitCast vars)), gv_linkage = ExternalLinkage,
        gv_constant = True, gv_align = 0\<rparr>]\<rparr>"
  by (auto simp: emit_offset_table_def split: if_splits)

lemma jl_gen_llvm_globaldata_Inr:
  assumes "jl_gen_llvm_globaldata sz data sd sl s = Inr data'"
  shows "data_jl_sysimg_gvars data \<noteq> [] \<and> jl_sysimg_fvars data \<noteq> [] \<and>
    (\<exists>rest. m_globals (data_M data') = m_globals (data_M data) @
      [\<lparr>gv_name = ''jl_sysimg_gvars'', gv_is_function = False, gv_elem_type = ScalarTy,
        gv_init = Some (ConstantArray (map BitCast (data_jl_sysimg_gvars data))),
        gv_linkage = ExternalLinkage, gv_constant = True, gv_align = 0\<rparr>,
       \<lparr>gv_name = ''jl_sysimg_fvars'', gv_is_function = False, gv_elem_type = ScalarTy,
        gv_init = Some (ConstantArray (map BitCast (jl_sysimg_fvars data))),
        gv_linkage = ExternalLinkage, gv_constant = True, gv_align = 0\<rparr>,
       \<lparr>gv_name = ''jl_globalUnique'', gv_is_function = False, gv_elem_type = ScalarTy,
        gv_init = Some (ConstantInt (if sz = 8 then 64 else 32)
                      ((globalUnique s + 1) mod 2 ^ (if sz = 8 then 64 else 32))),
        gv_linkage = ExternalLinkage, gv_constant = True, gv_align = 0\<rparr>] @ rest)"
proof -
  from assms obtain mod1 where
    e1: "emit_offset_table (data_M data) (data_jl_sysimg_gvars data) ''jl_sysimg_gvars'' = Inr mod1"
    by (auto simp: jl_gen_llvm_globaldata_def Let_def split: sum.splits)
  from assms e1 obtain mod2 where
    e2: "emit_offset_table mod1 (jl_sysimg_fvars data) ''jl_sysimg_fvars'' = Inr mod2"
    by (auto simp: jl_gen_llvm_globaldata_def Let_def split: sum.splits)
  note m1 = emit_offset_table_Inr [OF e1] and m2 = emit_offset_table_Inr [OF e2]
  from assms show ?thesis
    unfolding jl_gen_llvm_globaldata_def Let_def e1 e2 sum.case
    by (auto simp: m1 m2 addComdat_def split: option.splits)
qed

lemma jl_dump_native_imaging:
  assumes "imaging_mode s"
      and "jl_dump_native env data bc unopt obj sd sl s = Inr (r, s')"
  shows "\<exists>data'. jl_gen_llvm_globaldata (sizeof_size_t env)
           (data\<lparr>data_M := (data_M data)
              \<lparr>m_triple := TM_triple env, m_layout := TM_layout env @ ''-ni:10:11:12''\<rparr>\<rparr>)
           sd sl s = Inr data' \<and> ran_on r = data_M data'"
  using assms
  by (auto simp: jl_dump_native_def Let_def split: prod.splits sum.splits)

lemma jl_dump_native_tables:
  assumes "imaging_mode s"
      and "jl_dump_native env data bc unopt obj sd sl s = Inr (r, s')"
  shows "data_jl_sysimg_gvars data \<noteq> [] \<and> jl_sysimg_fvars data \<noteq> [] \<and>
    (\<exists>rest. m_globals (ran_on r) = m_globals (data_M data) @
      [\<lparr>gv_name = ''jl_sysimg_gvars'', gv_is_function = False, gv_elem_type = ScalarTy,
        gv_init = Some (ConstantArray (map BitCast (data_jl_sysimg_gvars data))),
        gv_linkage = ExternalLinkage, gv_constant = True, gv_align = 0\<rparr>,
       \<lparr>gv_name = ''jl_sysimg_fvars'', gv_is_function = False, gv_elem_type = ScalarTy,
        gv_init = Some (ConstantArray (map BitCast (jl_sysimg_fvars data))),
        gv_linkage = ExternalLinkage, gv_constant = True, gv_align = 0\<rparr>,
       \<lparr>gv_name = ''jl_globalUnique'', gv_is_function = False, gv_elem_type = ScalarTy,
        gv_init = Some (ConstantInt (if sizeof_size_t env = 8 then 64 else 32)
                      ((globalUnique s + 1) mod 2 ^ (if sizeof_size_t env = 8 then 64 else 32))),
        gv_linkage = ExternalLinkage, gv_constant = True, gv_align = 0\<rparr>] @ rest)"
proof -
  from jl_dump_native_imaging [OF assms] obtain data' where
    g: "jl_gen_llvm_globaldata (sizeof_size_t env)
           (data\<lparr>data_M := (data_M data)
              \<lparr>m_triple := TM_triple env, m_layout := TM_layout env @ ''-ni:10:11:12''\<rparr>\<rparr>)
           sd sl s = Inr data'"
    and r: "ran_on r = data_M data'" by blast
  from jl_gen_llvm_globaldata_Inr [OF g] show ?thesis
    by (simp add: r)
qed

text \<open>
  C4 (amended). The claim: in imaging mode the emission writes a scalar counter global
  whose value is the registry's high-water index. What holds: whenever an emission in
  imaging mode returns, the third global it adds to the session's module is the constant
  \<open>jl_globalUnique\<close>, and its value is the name counter \<open>globalUnique\<close> plus one,
  kept to the width of \<open>size_t\<close>.
\<close>

theorem jl_dump_native_counter_global:
  assumes "imaging_mode s"
      and "jl_dump_native env data bc unopt obj sysimg_data sysimg_len s = Inr (r, s')"
  shows "m_globals (ran_on r) ! (length (m_globals (data_M data)) + 2) =
           \<lparr>gv_name = ''jl_globalUnique'', gv_is_function = False, gv_elem_type = ScalarTy,
            gv_init = Some (ConstantInt (if sizeof_size_t env = 8 then 64 else 32)
                      ((globalUnique s + 1) mod 2 ^ (if sizeof_size_t env = 8 then 64 else 32))),
            gv_linkage = ExternalLinkage, gv_constant = True, gv_align = 0\<rparr>"
proof -
  from jl_dump_native_tables [OF assms] obtain rest where
    "m_globals (ran_on r) = m_globals (data_M data) @
      [\<lparr>gv_name = ''jl_sysimg_gvars'', gv_is_function = False, gv_elem_type = ScalarTy,
        gv_init = Some (ConstantArray (map BitCast (data_jl_sysimg_gvars data))),
        gv_linkage = ExternalLinkage, gv_constant = True, gv_align = 0\<rparr>,
       \<lparr>gv_name = ''jl_sysimg_fvars'', gv_is_function = False, gv_elem_type = ScalarTy,
        gv_init = Some (ConstantArray (map BitCast (jl_sysimg_fvars data))),
        gv_linkage = ExternalLinkage, gv_constant = True, gv_align = 0\<rparr>,
       \<lparr>gv_name = ''jl_globalUnique'', gv_is_function = False, gv_elem_type = ScalarTy,
        gv_init = Some (ConstantInt (if sizeof_size_t env = 8 then 64 else 32)
                      ((globalUnique s + 1) mod 2 ^ (if sizeof_size_t env = 8 then 64 else 32))),
        gv_linkage = ExternalLinkage, gv_constant = True, gv_align = 0\<rparr>] @ rest"
    by auto
  then show ?thesis
    by (simp add: nth_append)
qed


text \<open>
  The claim as stated fails in the process \<open>example_registered\<close>: one address is
  registered, so the largest registered index is 1, and the emitted counter is 2.
\<close>

theorem jl_globalUnique_is_not_high_water:
  "map_sum id
     (\<lambda>r. map gv_init
             (filter (\<lambda>g. gv_name g = ''jl_globalUnique'') (m_globals (ran_on (fst r)))))
     (jl_dump_native example_env example_session None None None None 0 example_registered)
     = Inr [Some (ConstantInt 64 2)]
   \<and> registry_high_water example_registered = 1"
  by (simp add: dump_defs example_session_eq example_registered_eq example_defs
          getNamedValue_def addComdat_def Let_def registry_high_water_def)

theorem jl_dump_native_counter_global_witness:
  "imaging_mode example_registered \<and> globalUnique example_registered = 1 \<and>
   map_sum id
     (\<lambda>r. m_globals (ran_on (fst r)) ! (length (m_globals (data_M example_session)) + 2))
     (jl_dump_native example_env example_session None None None None 0 example_registered)
   = Inr \<lparr>gv_name = ''jl_globalUnique'', gv_is_function = False, gv_elem_type = ScalarTy,
          gv_init = Some (ConstantInt 64 2),
          gv_linkage = ExternalLinkage, gv_constant = True, gv_align = 0\<rparr>"
proof -
  have i: "imaging_mode example_registered" and u: "globalUnique example_registered = 1"
    by (simp_all add: example_registered_eq example_state_def)
  obtain r s' where
    h: "jl_dump_native example_env example_session None None None None 0 example_registered
          = Inr (r, s')"
    by (simp add: dump_defs example_session_eq example_registered_eq example_defs
          getNamedValue_def addComdat_def Let_def)
  have "m_globals (ran_on r) ! (length (m_globals (data_M example_session)) + 2) =
          \<lparr>gv_name = ''jl_globalUnique'', gv_is_function = False, gv_elem_type = ScalarTy,
           gv_init = Some (ConstantInt 64 2),
           gv_linkage = ExternalLinkage, gv_constant = True, gv_align = 0\<rparr>"
    using jl_dump_native_counter_global [OF i h]
    by (simp add: u example_env_def)
  then show ?thesis
    unfolding h using i u by simp
qed

section \<open>A session without roots\<close>

lemma getNamedValue_name: "getNamedValue M n = Some g \<Longrightarrow> gv_name g = n"
  by (auto simp: getNamedValue_def find_Some_iff split: if_splits)

lemma remap_gvars_same:
  "list_all (\<lambda>v. getNamedValue shadow v \<noteq> None) vs \<Longrightarrow> remap_gvars shadow vs = Inr vs"
  by (induction vs) (auto dest: getNamedValue_name)

lemma jl_create_native_no_roots:
  assumes drain: "\<forall>w em s. jl_compile_workqueue rt w em [] s = ((em, []), s)"
      and reg: "list_all (\<lambda>v. getNamedValue (shadow_output s) v \<noteq> None) (jl_sysimg_gvars s)"
  shows "jl_create_native rt [] s =
     Inr ((\<lparr>data_M = (shadow_output s)\<lparr>m_globals :=
                map (\<lambda>F. if gv_is_function F \<and> \<not> isDeclaration F
                          then addComdat (F\<lparr>gv_linkage := InternalLinkage\<rparr>) else F)
                    (m_globals (shadow_output s))\<rparr>,
             jl_sysimg_fvars = [], data_jl_sysimg_gvars = jl_sysimg_gvars s, jl_fvar_map = []\<rparr>,
           [], []), s)"
proof -
  have p: "jl_create_native_pass rt [] w (\<lparr>emitted = [], workqueue = [], codegen_calls = []\<rparr>, s)
        = (\<lparr>emitted = [], workqueue = [], codegen_calls = []\<rparr>, s)" for w
    by (simp add: jl_create_native_pass_def drain Let_def)
  show ?thesis
    by (simp add: jl_create_native_def p map_entries_def remap_gvars_same [OF reg] Let_def)
qed

text \<open>
  A session without roots, emitted with no destination, for a runtime whose work queue
  drain does nothing on an empty queue and a registry whose globals are all in the shadow
  module. With imaging mode off the call returns, nothing is printed or written, and the
  pipeline runs on the clone of the shadow module with no offset table added. With imaging
  mode on the function table is empty, and the assertion of \<open>emit_offset_table\<close>
  stops the process.
\<close>

lemma create_and_dump_no_roots:
  assumes drain: "\<forall>w em s. jl_compile_workqueue rt w em [] s = ((em, []), s)"
      and reg: "list_all (\<lambda>v. getNamedValue (shadow_output s) v \<noteq> None) (jl_sysimg_gvars s)"
  shows "create_and_dump rt [] env None None None sysimg_data sysimg_len s =
     (if imaging_mode s then Inl AssertionFailed
      else Inr (\<lparr>printed = [], PM = [TargetPasses],
                 ran_on = \<lparr>m_globals =
                             map (\<lambda>F. if gv_is_function F \<and> \<not> isDeclaration F
                                       then addComdat (F\<lparr>gv_linkage := InternalLinkage\<rparr>) else F)
                                 (m_globals (shadow_output s)),
                           m_triple = TM_triple env,
                           m_layout = TM_layout env @ ''-ni:10:11:12''\<rparr>,
                 written = []\<rparr>, s))"
proof (cases "imaging_mode s")
  case True
  then show ?thesis
    by (simp add: create_and_dump_def jl_create_native_no_roots [OF drain reg]
        jl_dump_native_def jl_gen_llvm_globaldata_def emit_offset_table_def Let_def)
next
  case False
  then have "s\<lparr>imaging_mode := False\<rparr> = s" by simp
  with False show ?thesis
    by (simp add: create_and_dump_def jl_create_native_no_roots [OF drain reg]
        jl_dump_native_def Let_def)
qed

text \<open>
  C3. The claim: a session created from no roots and emitted with no destination succeeds
  and gives empty, well-formed offset tables. The code differs: in imaging mode, the only
  mode in which offset tables are emitted, \<open>emit_offset_table\<close> begins with
  \<open>assert(!vars.empty())\<close>, and a session without roots has an empty function table.
  In a process that has just started (nothing registered) the assertion already fails on
  the global table; in a process with a registered global it fails on the function table.
  The lines after the assertion build the array for any number of elements, also none.
\<close>

theorem create_and_dump_no_roots_assertion:
  "create_and_dump example_runtime [] example_env None None None None 0 example_state
     = Inl AssertionFailed
   \<and> create_and_dump example_runtime [] example_env None None None None 0 example_registered
     = Inl AssertionFailed"
  by (simp add: create_and_dump_def create_defs dump_defs example_defs example_registered_eq)

section \<open>The output destinations\<close>





section \<open>The compilation passes\<close>

lemma map_of_map_assign: "map_of (map_assign k v m) = (map_of m)(k \<mapsto> v)"
  by (induction m) (auto simp: fun_eq_iff)

lemma map_count_map_assign: "map_count (map_assign k v m) k' = (k' = k \<or> map_count m k')"
  by (simp add: map_count_def map_of_map_assign)

lemma map_count_iff: "map_count m k = (k \<in> fst ` set m)"
  by (simp add: map_count_def map_of_eq_None_iff)

lemma map_fst_map_entries: "map fst (map_entries m) = sort (remdups (map fst m))"
  by (simp add: map_entries_def comp_def)

lemma distinct_map_entries: "distinct (map fst (map_entries m))"
  by (simp add: map_fst_map_entries)

lemma set_map_entries: "fst ` set (map_entries m) = fst ` set m"
proof -
  have "fst ` set (map_entries m) = set (map fst (map_entries m))" by simp
  also have "\<dots> = fst ` set m" by (simp only: map_fst_map_entries) simp
  finally show ?thesis .
qed

lemma calls_ok_Nil: "calls_ok []"
  by (simp add: calls_ok_def)

lemma calls_ok_snoc:
  assumes "calls_ok cs" and "(mi, True) \<notin> set cs"
  shows "calls_ok (cs @ [(mi, b)])"
  unfolding calls_ok_def
proof (intro allI impI)
  fix i j
  assume ij: "i < j" and j: "j < length (cs @ [(mi, b)])"
     and si: "snd ((cs @ [(mi, b)]) ! i)"
  from ij j have i: "i < length cs" by simp
  then have ci: "(cs @ [(mi, b)]) ! i = cs ! i" by (simp add: nth_append)
  show "fst ((cs @ [(mi, b)]) ! j) \<noteq> fst ((cs @ [(mi, b)]) ! i)"
  proof (cases "j < length cs")
    case True
    then have "(cs @ [(mi, b)]) ! j = cs ! j" by (simp add: nth_append)
    with assms(1) ij True si ci show ?thesis by (simp add: calls_ok_def)
  next
    case False
    with j have "(cs @ [(mi, b)]) ! j = (mi, b)" by (simp add: nth_append)
    moreover have "fst (cs ! i) \<noteq> mi"
    proof
      assume "fst (cs ! i) = mi"
      with si ci have "cs ! i = (mi, True)" by (cases "cs ! i") simp
      with i have "(mi, True) \<in> set cs" by (metis nth_mem)
      with assms(2) show False by simp
    qed
    ultimately show ?thesis by (simp add: ci)
  qed
qed

lemma root_inv:
  assumes "driver_inv (fst ds)"
  shows "driver_inv (fst (jl_create_native_root rt worlds world mi0 ds))"
  using assms
  by (auto simp: jl_create_native_root_def Let_def driver_inv_def map_count_map_assign
        intro!: calls_ok_snoc)

lemma roots_inv:
  "driver_inv (fst ds) \<Longrightarrow>
   driver_inv (fst (fold (jl_create_native_root rt worlds world) methods ds))"
  by (induction methods arbitrary: ds) (simp_all add: root_inv)

lemma pass_inv:
  assumes mono: "\<forall>w em q s k. map_count em k \<longrightarrow>
                   map_count (fst (fst (jl_compile_workqueue rt w em q s))) k"
      and "driver_inv (fst ds)"
  shows "driver_inv (fst (jl_create_native_pass rt methods worlds ds))"
proof -
  have "driver_inv (fst (fold (jl_create_native_root rt worlds world) methods ds))" for world
    using assms(2) by (rule roots_inv)
  then show ?thesis
    using assms(2) mono
    by (auto simp: jl_create_native_pass_def Let_def driver_inv_def)
qed

lemma root_in_one_pass:
  "jl_create_native_root rt 2 world mi0 ds = ds
   \<or> jl_create_native_root rt 1 (jl_world_counter (snd ds)) mi0 ds = ds"
  by (auto simp: jl_create_native_root_def Let_def)

lemma merge_all_merged:
  "jl_create_native_merge_all rt s defs (c, data, m) = Inr (c', data', m') \<Longrightarrow> m' = m @ defs"
proof (induction defs arbitrary: c data m)
  case Nil
  then show ?case by simp
next
  case (Cons d defs)
  from Cons.prems obtain c1 data1 m1 where
    s1: "jl_create_native_merge rt s d (c, data, m) = Inr (c1, data1, m1)"
    and r: "jl_create_native_merge_all rt s defs (c1, data1, m1) = Inr (c', data', m')"
    by (auto split: sum.splits)
  from s1 have "m1 = m @ [d]"
    by (auto simp: jl_create_native_merge_def Let_def split: prod.splits option.splits sum.splits)
  with Cons.IH [OF r] show ?case by simp
qed

text \<open>
  One element of the array: either no call of the code generator and \<open>emitted\<close> as
  it was, or one call, for a method instance that is not in \<open>emitted\<close>, which is
  stored there when the call gave a module and only then.
\<close>

lemma root_step:
  "(codegen_calls (fst (jl_create_native_root rt worlds world mi0 ds)) = codegen_calls (fst ds)
      \<and> emitted (fst (jl_create_native_root rt worlds world mi0 ds)) = emitted (fst ds))
   \<or> (\<exists>mi b. codegen_calls (fst (jl_create_native_root rt worlds world mi0 ds))
                 = codegen_calls (fst ds) @ [(mi, b)]
         \<and> \<not> map_count (emitted (fst ds)) mi
         \<and> (if b then \<forall>k. map_count (emitted (fst (jl_create_native_root rt worlds world mi0 ds))) k
                          = (k = mi \<or> map_count (emitted (fst ds)) k)
             else emitted (fst (jl_create_native_root rt worlds world mi0 ds)) = emitted (fst ds)))"
  by (auto simp: jl_create_native_root_def Let_def map_count_map_assign)

lemma roots_new_calls:
  "\<exists>new. codegen_calls (fst (fold (jl_create_native_root rt worlds world) methods ds))
            = codegen_calls (fst ds) @ new
     \<and> (\<forall>mi b. (mi, b) \<in> set new \<longrightarrow> \<not> map_count (emitted (fst ds)) mi)
     \<and> (\<forall>k. map_count (emitted (fst ds)) k \<longrightarrow>
            map_count (emitted (fst (fold (jl_create_native_root rt worlds world) methods ds))) k)"
proof (induction methods arbitrary: ds)
  case Nil
  show ?case by simp
next
  case (Cons m ms)
  let ?ds1 = "jl_create_native_root rt worlds world m ds"
  from Cons.IH [of ?ds1] obtain new where
    c: "codegen_calls (fst (fold (jl_create_native_root rt worlds world) ms ?ds1))
            = codegen_calls (fst ?ds1) @ new"
    and n: "\<forall>mi b. (mi, b) \<in> set new \<longrightarrow> \<not> map_count (emitted (fst ?ds1)) mi"
    and k: "\<forall>k. map_count (emitted (fst ?ds1)) k \<longrightarrow>
            map_count (emitted (fst (fold (jl_create_native_root rt worlds world) ms ?ds1))) k"
    by blast
  from root_step [of rt worlds world m ds]
  obtain step where
    s: "codegen_calls (fst ?ds1) = codegen_calls (fst ds) @ step"
    and sn: "\<forall>mi b. (mi, b) \<in> set step \<longrightarrow> \<not> map_count (emitted (fst ds)) mi"
    and sk: "\<forall>k. map_count (emitted (fst ds)) k \<longrightarrow> map_count (emitted (fst ?ds1)) k"
  proof
    assume "codegen_calls (fst ?ds1) = codegen_calls (fst ds)
      \<and> emitted (fst ?ds1) = emitted (fst ds)"
    then show ?thesis using that [of "[]"] by simp
  next
    assume "\<exists>mi b. codegen_calls (fst ?ds1) = codegen_calls (fst ds) @ [(mi, b)]
         \<and> \<not> map_count (emitted (fst ds)) mi
         \<and> (if b then \<forall>k. map_count (emitted (fst ?ds1)) k
                          = (k = mi \<or> map_count (emitted (fst ds)) k)
             else emitted (fst ?ds1) = emitted (fst ds))"
    then obtain mi b where
      1: "codegen_calls (fst ?ds1) = codegen_calls (fst ds) @ [(mi, b)]"
      and 2: "\<not> map_count (emitted (fst ds)) mi"
      and 3: "if b then \<forall>k. map_count (emitted (fst ?ds1)) k
                          = (k = mi \<or> map_count (emitted (fst ds)) k)
             else emitted (fst ?ds1) = emitted (fst ds)" by blast
    from 3 have "\<forall>k. map_count (emitted (fst ds)) k \<longrightarrow> map_count (emitted (fst ?ds1)) k"
      by (auto simp: map_count_map_assign split: if_splits)
    with 1 2 show ?thesis using that [of "[(mi, b)]"] by simp
  qed
  show ?case
  proof (intro exI [of _ "step @ new"] conjI allI impI)
    show "codegen_calls (fst (fold (jl_create_native_root rt worlds world) (m # ms) ds))
            = codegen_calls (fst ds) @ step @ new"
      using c s by simp
  next
    fix mi b assume "(mi, b) \<in> set (step @ new)"
    then have "(mi, b) \<in> set step \<or> (mi, b) \<in> set new" by simp
    then show "\<not> map_count (emitted (fst ds)) mi"
    proof
      assume "(mi, b) \<in> set step" with sn show ?thesis by blast
    next
      assume "(mi, b) \<in> set new"
      with n have "\<not> map_count (emitted (fst ?ds1)) mi" by blast
      with sk show ?thesis by blast
    qed
  next
    fix k assume "map_count (emitted (fst ds)) k"
    with sk k show "map_count (emitted (fst (fold (jl_create_native_root rt worlds world) (m # ms) ds))) k"
      by simp
  qed
qed

lemma pass_new_calls:
  "\<exists>new. codegen_calls (fst (jl_create_native_pass rt methods worlds ds))
            = codegen_calls (fst ds) @ new
     \<and> (\<forall>mi b. (mi, b) \<in> set new \<longrightarrow> \<not> map_count (emitted (fst ds)) mi)"
proof (cases "(if worlds = 1 then jl_world_counter (snd ds) else jl_typeinf_world (snd ds)) = 0")
  case True
  then have "jl_create_native_pass rt methods worlds ds = ds"
    by (simp add: jl_create_native_pass_def Let_def)
  then show ?thesis by simp
next
  case False
  let ?w = "if worlds = 1 then jl_world_counter (snd ds) else jl_typeinf_world (snd ds)"
  from False have "codegen_calls (fst (jl_create_native_pass rt methods worlds ds))
     = codegen_calls (fst (fold (jl_create_native_root rt worlds ?w) methods ds))"
    by (simp add: jl_create_native_pass_def Let_def)
  with roots_new_calls [of rt worlds ?w methods ds] show ?thesis by auto
qed


lemma pass_keeps:
  assumes mono: "\<forall>w em q s k. map_count em k \<longrightarrow>
                   map_count (fst (fst (jl_compile_workqueue rt w em q s))) k"
      and "map_count (emitted (fst ds)) k"
  shows "map_count (emitted (fst (jl_create_native_pass rt methods worlds ds))) k"
proof -
  have "map_count (emitted (fst (fold (jl_create_native_root rt worlds world) methods ds))) k"
    for world
    using roots_new_calls [of rt worlds world methods ds] assms(2) by blast
  then show ?thesis
    using assms(2) mono
    by (auto simp: jl_create_native_pass_def Let_def)
qed

text \<open>
  C5 (amended). The claim: within one call of \<open>jl_create_native\<close> every method instance
  is passed to the code generator at most once and merged at most once. What holds, for a
  runtime whose work queue drain removes nothing from \<open>emitted\<close>: no method instance
  is passed again after a call for it has given a module; the calls of the second pass
  are all for method instances that are not in \<open>emitted\<close> as the first pass and its
  drain left it, so a method instance compiled by the first pass or by its drain is not
  passed in the second; the merged entries have pairwise different method instances, which
  are those of \<open>emitted\<close> after the two passes, and they include every method instance
  whose call gave a module and every one emitted in the first pass. In the loop body, a call is made only for a method instance that is not in
  \<open>emitted\<close>, and a call that gives no module leaves \<open>emitted\<close> as it was: such a
  method instance stays unrecorded and can be passed again.
\<close>

theorem jl_create_native_compiles_once:
  assumes mono: "\<forall>w em q s k. map_count em k \<longrightarrow>
                   map_count (fst (fst (jl_compile_workqueue rt w em q s))) k"
      and run: "jl_create_native rt methods s = Inr ((data, calls, merged), s1)"
  shows "calls_ok calls
     \<and> (\<exists>new. calls =
            codegen_calls (fst (jl_create_native_pass rt methods 2
               (\<lparr>emitted = [], workqueue = [], codegen_calls = []\<rparr>, s))) @ new
          \<and> (\<forall>mi b. (mi, b) \<in> set new \<longrightarrow>
                \<not> map_count (emitted (fst (jl_create_native_pass rt methods 2
                      (\<lparr>emitted = [], workqueue = [], codegen_calls = []\<rparr>, s)))) mi))
     \<and> distinct (map fst merged)
     \<and> (\<forall>mi. (mi \<in> fst ` set merged)
              = map_count (emitted (fst (jl_create_native_pass rt methods 1
                   (jl_create_native_pass rt methods 2
                      (\<lparr>emitted = [], workqueue = [], codegen_calls = []\<rparr>, s))))) mi)
     \<and> (\<forall>mi. (mi, True) \<in> set calls \<longrightarrow> mi \<in> fst ` set merged)
     \<and> (\<forall>mi. map_count (emitted (fst (jl_create_native_pass rt methods 2
                      (\<lparr>emitted = [], workqueue = [], codegen_calls = []\<rparr>, s)))) mi
            \<longrightarrow> mi \<in> fst ` set merged)
     \<and> (\<forall>worlds world mi0 ds.
          (codegen_calls (fst (jl_create_native_root rt worlds world mi0 ds)) = codegen_calls (fst ds)
             \<and> emitted (fst (jl_create_native_root rt worlds world mi0 ds)) = emitted (fst ds))
          \<or> (\<exists>mi b. codegen_calls (fst (jl_create_native_root rt worlds world mi0 ds))
                        = codegen_calls (fst ds) @ [(mi, b)]
                \<and> \<not> map_count (emitted (fst ds)) mi
                \<and> (if b
                    then \<forall>k. map_count (emitted (fst (jl_create_native_root rt worlds world mi0 ds))) k
                               = (k = mi \<or> map_count (emitted (fst ds)) k)
                    else emitted (fst (jl_create_native_root rt worlds world mi0 ds))
                           = emitted (fst ds))))"
proof -
  define ds2 where "ds2 = jl_create_native_pass rt methods 2
                 (\<lparr>emitted = [], workqueue = [], codegen_calls = []\<rparr>, s)"
  define ds where "ds = fold (jl_create_native_pass rt methods) [2, 1]
                 (\<lparr>emitted = [], workqueue = [], codegen_calls = []\<rparr>, s)"
  have dse: "ds = jl_create_native_pass rt methods 1 ds2"
    by (simp add: ds_def ds2_def)
  have "driver_inv (fst (\<lparr>emitted = [], workqueue = [], codegen_calls = []\<rparr>, s))"
    by (simp add: driver_inv_def calls_ok_Nil)
  then have "driver_inv (fst ds2)"
    unfolding ds2_def by (rule pass_inv [OF mono])
  then have inv: "driver_inv (fst ds)"
    unfolding dse by (rule pass_inv [OF mono])
  from run have c: "calls = codegen_calls (fst ds)"
    by (auto simp: jl_create_native_def Let_def ds_def split: sum.splits prod.splits)
  from run obtain clone data' where
    "jl_create_native_merge_all rt (snd ds) (map_entries (emitted (fst ds)))
       (shadow_output (snd ds),
        \<lparr>data_M = \<lparr>m_globals = [], m_triple = [], m_layout = []\<rparr>,
         jl_sysimg_fvars = [], data_jl_sysimg_gvars = [], jl_fvar_map = []\<rparr>, [])
     = Inr (clone, data', merged)"
    by (auto simp: jl_create_native_def Let_def ds_def split: sum.splits prod.splits)
  then have m: "merged = map_entries (emitted (fst ds))"
    using merge_all_merged by fastforce
  have 1: "calls_ok calls"
    using inv by (simp add: driver_inv_def c)
  have 2: "\<exists>new. calls = codegen_calls (fst ds2) @ new
          \<and> (\<forall>mi b. (mi, b) \<in> set new \<longrightarrow> \<not> map_count (emitted (fst ds2)) mi)"
    unfolding c dse by (rule pass_new_calls)
  have 3: "distinct (map fst merged)"
    unfolding m by (rule distinct_map_entries)
  have 7: "\<forall>mi. (mi \<in> fst ` set merged)
              = map_count (emitted (fst (jl_create_native_pass rt methods 1 ds2))) mi"
    unfolding dse [symmetric] m by (simp add: set_map_entries map_count_iff del: map_map)
  have 4: "\<forall>mi. (mi, True) \<in> set calls \<longrightarrow> mi \<in> fst ` set merged"
    using inv
    by (auto simp: driver_inv_def c m set_map_entries map_count_iff simp del: map_map)
  have 5: "\<forall>mi. map_count (emitted (fst ds2)) mi \<longrightarrow> mi \<in> fst ` set merged"
  proof (intro allI impI)
    fix mi assume "map_count (emitted (fst ds2)) mi"
    then have "map_count (emitted (fst ds)) mi"
      unfolding dse by (rule pass_keeps [OF mono])
    then show "mi \<in> fst ` set merged"
      by (simp only: m set_map_entries map_count_iff)
  qed
  have 6: "\<forall>worlds world mi0 ds.
          (codegen_calls (fst (jl_create_native_root rt worlds world mi0 ds)) = codegen_calls (fst ds)
             \<and> emitted (fst (jl_create_native_root rt worlds world mi0 ds)) = emitted (fst ds))
          \<or> (\<exists>mi b. codegen_calls (fst (jl_create_native_root rt worlds world mi0 ds))
                        = codegen_calls (fst ds) @ [(mi, b)]
                \<and> \<not> map_count (emitted (fst ds)) mi
                \<and> (if b
                    then \<forall>k. map_count (emitted (fst (jl_create_native_root rt worlds world mi0 ds))) k
                               = (k = mi \<or> map_count (emitted (fst ds)) k)
                    else emitted (fst (jl_create_native_root rt worlds world mi0 ds))
                           = emitted (fst ds)))"
    by (intro allI) (rule root_step)
  show ?thesis
    unfolding ds2_def [symmetric]
    apply (rule conjI [OF 1])
    apply (rule conjI [OF 2])
    apply (rule conjI [OF 3])
    apply (rule conjI [OF 7])
    apply (rule conjI [OF 4])
    apply (rule conjI [OF 5])
    apply (rule 6)
    done
qed

text \<open>
  The claim as stated fails for the roots 9, 9: code generation gives no module for 9,
  and it is called for both occurrences.
\<close>

theorem jl_create_native_compiles_failed_root_twice:
  "map_sum id (\<lambda>r. fst (snd (fst r))) (jl_create_native example_runtime [9, 9] example_state)
     = Inr [(9, False), (9, False)]"
  by (simp add: create_defs example_defs)

theorem jl_create_native_compiles_once_witness:
  "\<exists>data merged s1.
     jl_create_native example_runtime_queue [6, 8, 9, 9] example_two_worlds
        = Inr ((data, [(6, True), (9, False), (9, False)], merged), s1)
     \<and> map fst merged = [6, 8]
     \<and> codegen_calls (fst (jl_create_native_pass example_runtime_queue [6, 8, 9, 9] 2
            (\<lparr>emitted = [], workqueue = [], codegen_calls = []\<rparr>, example_two_worlds)))
         = [(6, True)]
     \<and> map fst (emitted (fst (jl_create_native_pass example_runtime_queue [6, 8, 9, 9] 2
            (\<lparr>emitted = [], workqueue = [], codegen_calls = []\<rparr>, example_two_worlds))))
         = [6, 8]
     \<and> calls_ok [(6, True), (9, False), (9, False)]
     \<and> distinct (map fst merged)
     \<and> 8 \<in> fst ` set merged"
proof -
  let ?first = "jl_create_native_pass example_runtime_queue [6, 8, 9, 9] 2
            (\<lparr>emitted = [], workqueue = [], codegen_calls = []\<rparr>, example_two_worlds)"
  have mono: "\<forall>w em q s k. map_count em k \<longrightarrow>
                map_count (fst (fst (jl_compile_workqueue example_runtime_queue w em q s))) k"
    by (simp add: example_runtime_queue_def example_runtime_def map_count_map_assign)
  obtain data merged s1 where
    run: "jl_create_native example_runtime_queue [6, 8, 9, 9] example_two_worlds
        = Inr ((data, [(6, True), (9, False), (9, False)], merged), s1)"
    and m: "map fst merged = [6, 8]"
    by (simp add: create_defs example_two_worlds_def example_runtime_queue_def example_defs)
  have c: "codegen_calls (fst ?first) = [(6, True)]"
    by (simp add: create_defs example_two_worlds_def example_runtime_queue_def example_defs)
  have e: "map fst (emitted (fst ?first)) = [6, 8]"
    by (simp add: create_defs example_two_worlds_def example_runtime_queue_def example_defs)
  then have e8: "map_count (emitted (fst ?first)) 8"
    by (simp only: map_count_iff set_map [symmetric]) simp
  note t = jl_create_native_compiles_once [OF mono run]
  from t have r: "calls_ok [(6, True), (9, False), (9, False)]" and d: "distinct (map fst merged)"
    by blast+
  from t e8 have 8: "8 \<in> fst ` set merged" by blast
  show ?thesis
    apply (rule exI [of _ data])
    apply (rule exI [of _ merged])
    apply (rule exI [of _ s1])
    apply (intro conjI)
          apply (rule run)
         apply (rule m)
        apply (rule c)
       apply (rule e)
      apply (rule r)
     apply (rule d)
    apply (rule 8)
    done
qed

section \<open>Placeholder names\<close>

lemma digit_in: "d < 10 \<Longrightarrow> ''0123456789'' ! d \<in> set ''0123456789''"
  by (rule nth_mem) simp

lemma digit_of_char: "d < 10 \<Longrightarrow> of_char (''0123456789'' ! d) = (48 + d :: nat)"
proof -
  assume "d < 10"
  then have "d = 0 \<or> d = 1 \<or> d = 2 \<or> d = 3 \<or> d = 4 \<or> d = 5 \<or> d = 6 \<or> d = 7 \<or> d = 8 \<or> d = 9"
    by arith
  then show ?thesis by (elim disjE) simp_all
qed

lemma string_of_nat_in:
  assumes D: "\<And>d. d < 10 \<Longrightarrow> ''0123456789'' ! d \<in> D"
  shows "set (string_of_nat n) \<subseteq> D"
proof (induction n rule: string_of_nat.induct)
  case (1 n)
  show ?case
  proof (cases "n < 10")
    case True
    have "string_of_nat n = [''0123456789'' ! n]"
      using True by (subst string_of_nat.simps) simp
    then show ?thesis using D [OF True] by simp
  next
    case False
    have m: "n mod 10 < 10" by simp
    have "string_of_nat n = string_of_nat (n div 10) @ [''0123456789'' ! (n mod 10)]"
      using False by (subst string_of_nat.simps) simp
    then show ?thesis using 1 [OF False] D [OF m] by simp
  qed
qed

lemma string_of_nat_digits: "set (string_of_nat n) \<subseteq> set ''0123456789''"
  by (rule string_of_nat_in) (rule digit_in)

lemma string_of_nat_value:
  "foldl (\<lambda>a c. 10 * a + (of_char c - 48)) 0 (string_of_nat n) = n"
proof (induction n rule: string_of_nat.induct)
  case (1 n)
  show ?case
  proof (cases "n < 10")
    case True
    have "string_of_nat n = [''0123456789'' ! n]"
      using True by (subst string_of_nat.simps) simp
    then show ?thesis by (simp add: digit_of_char [OF True])
  next
    case False
    have m: "n mod 10 < 10" by simp
    have "string_of_nat n = string_of_nat (n div 10) @ [''0123456789'' ! (n mod 10)]"
      using False by (subst string_of_nat.simps) simp
    then show ?thesis using 1 [OF False] 
      by (simp add: digit_of_char [OF m])
  qed
qed

lemma string_of_nat_inject:
  assumes "string_of_nat k = string_of_nat n" shows "k = n"
proof -
  have "k = foldl (\<lambda>a c. 10 * a + (of_char c - 48)) 0 (string_of_nat k)"
    by (simp only: string_of_nat_value)
  also have "\<dots> = foldl (\<lambda>a c. 10 * a + (of_char c - 48)) 0 (string_of_nat n)"
    by (simp only: assms)
  also have "\<dots> = n" by (simp only: string_of_nat_value)
  finally show ?thesis .
qed

lemma digit_suffix:
  assumes "prefix_ok p"
  shows "takeWhile (\<lambda>c. c \<in> set ''0123456789'') (rev (p @ string_of_nat n)) = rev (string_of_nat n)"
proof -
  define D where "D = set ''0123456789''"
  have d: "\<And>c. c \<in> set (rev (string_of_nat n)) \<Longrightarrow> c \<in> D"
    using string_of_nat_digits [of n] unfolding D_def by (simp only: set_rev) blast
  have e: "takeWhile (\<lambda>c. c \<in> D) (rev p) = []"
  proof (cases p rule: rev_cases)
    case Nil
    then show ?thesis by simp
  next
    case (snoc ys y)
    with assms have "y \<notin> D" unfolding D_def prefix_ok_def by (simp only: last_snoc) blast
    with snoc show ?thesis by simp
  qed
  have "takeWhile (\<lambda>c. c \<in> D) (rev (string_of_nat n) @ rev p) = rev (string_of_nat n) @ takeWhile (\<lambda>c. c \<in> D) (rev p)"
    using d by (rule takeWhile_append2)
  then show ?thesis
    unfolding D_def [symmetric] by (simp only: rev_append e append_Nil2)
qed

text \<open>
  A prefix that ends in a digit can give the name of another prefix with another value
  of the counter.
\<close>

lemma placeholder_names_collide: "''x1'' @ string_of_nat 0 = ''x'' @ string_of_nat 10"
  by (simp add: string_of_nat.simps)

lemma placeholder_name_inject:
  assumes "prefix_ok p" and "prefix_ok q" and "p @ string_of_nat k = q @ string_of_nat n"
  shows "k = n"
proof -
  have "rev (string_of_nat k) = rev (string_of_nat n)"
    using digit_suffix [OF assms(1), of k] digit_suffix [OF assms(2), of n] assms(3)
    by (simp only:)
  then show ?thesis by (simp add: string_of_nat_inject)
qed

section \<open>Interning an address\<close>

lemma jl_get_global_for_found:
  assumes "map_of (jl_value_to_llvm s) a = Some e"
  shows "\<exists>M'. jl_get_global_for c a M T s = Inr ((gv_name (gv e), M'), s)"
  using assms
  by (auto simp: jl_get_global_for_def prepare_global_in_def global_proto_def
        dest: getNamedValue_name split: option.splits)

lemma jl_get_global_for_new:
  assumes "map_of (jl_value_to_llvm s) a = None"
      and "jl_get_global_for c a M T s = Inr ((g, M'), s')"
  shows "g = c @ string_of_nat (globalUnique s) \<and> globalUnique s' = globalUnique s + 1
       \<and> imaging_mode s' = imaging_mode s
       \<and> (\<exists>sh. m_globals (shadow_output s') = m_globals (shadow_output s) @ sh)
       \<and> (if imaging_mode s \<and> a \<noteq> 0
           then jl_value_to_llvm s' =
                  map_assign a
                    \<lparr>gv = \<lparr>gv_name = g, gv_is_function = False, gv_elem_type = PointerTy,
                            gv_init = None, gv_linkage = ExternalLinkage, gv_constant = False,
                            gv_align = 0\<rparr>,
                     index = word_of_nat (Suc (length (jl_sysimg_gvars s)))\<rparr>
                    (jl_value_to_llvm s)
                \<and> jl_sysimg_gvars s' = jl_sysimg_gvars s @ [g]
           else jl_value_to_llvm s' = jl_value_to_llvm s
                \<and> jl_sysimg_gvars s' = jl_sysimg_gvars s)"
  using assms
  by (auto simp: jl_get_global_for_def jl_emit_and_add_to_shadow_def global_proto_def
        addComdat_def Let_def split: if_splits)

text \<open>
  The name counter is advanced by every new placeholder, registered or not, so it is never
  behind the global table.
\<close>

lemma counter_bounds_table:
  assumes "length (jl_sysimg_gvars s) \<le> globalUnique s"
      and call: "jl_get_global_for c a M T s = Inr ((g, M'), s')"
  shows "length (jl_sysimg_gvars s') \<le> globalUnique s'"
proof (cases "map_of (jl_value_to_llvm s) a")
  case (Some e)
  from jl_get_global_for_found [OF Some, of c M T] call have "s' = s" by auto
  with assms show ?thesis by simp
next
  case None
  from jl_get_global_for_new [OF None call] assms(1) show ?thesis
    by (auto split: if_splits)
qed

lemma registry_names_ok_step:
  assumes ok: "registry_names_ok s" and p: "prefix_ok c"
      and call: "jl_get_global_for c a M T s = Inr ((g, M'), s')"
  shows "registry_names_ok s'"
proof (cases "map_of (jl_value_to_llvm s) a")
  case (Some e)
  from jl_get_global_for_found [OF Some, of c M T] call have "s' = s" by auto
  with ok show ?thesis by simp
next
  case None
  note n = jl_get_global_for_new [OF None call]
  show ?thesis
  proof (cases "imaging_mode s \<and> a \<noteq> 0")
    case False
    with n have r: "jl_value_to_llvm s' = jl_value_to_llvm s"
      and u: "globalUnique s' = globalUnique s + 1" by auto
    show ?thesis
      unfolding registry_names_ok_def r u
    proof (intro conjI allI impI)
      fix b eb
      assume "map_of (jl_value_to_llvm s) b = Some eb"
      with ok obtain q k where "prefix_ok q" "k < globalUnique s"
         "gv_name (gv eb) = q @ string_of_nat k"
        unfolding registry_names_ok_def by blast
      then show "\<exists>p k. prefix_ok p \<and> k < globalUnique s + 1
                   \<and> gv_name (gv eb) = p @ string_of_nat k"
        by (intro exI [of _ q] exI [of _ k]) simp
    next
      fix b eb b' eb'
      assume "map_of (jl_value_to_llvm s) b = Some eb"
         "map_of (jl_value_to_llvm s) b' = Some eb'" "b \<noteq> b'"
      with ok show "gv_name (gv eb) \<noteq> gv_name (gv eb')"
        unfolding registry_names_ok_def by blast
    qed
  next
    case True
    with n obtain e where
      m: "map_of (jl_value_to_llvm s') = (map_of (jl_value_to_llvm s))(a \<mapsto> e)"
      and e: "gv_name (gv e) = c @ string_of_nat (globalUnique s)"
      and u: "globalUnique s' = globalUnique s + 1"
      by (auto simp: map_of_map_assign)
    have old: "gv_name (gv e') \<noteq> gv_name (gv e)"
      if "map_of (jl_value_to_llvm s) a' = Some e'" for a' e'
    proof -
      from ok that obtain q k where q: "prefix_ok q" and k: "k < globalUnique s"
        and nm: "gv_name (gv e') = q @ string_of_nat k"
        unfolding registry_names_ok_def by blast
      show ?thesis
      proof
        assume "gv_name (gv e') = gv_name (gv e)"
        with nm e have "q @ string_of_nat k = c @ string_of_nat (globalUnique s)" by simp
        from placeholder_name_inject [OF q p this] k show False by simp
      qed
    qed
    show ?thesis
      unfolding registry_names_ok_def
    proof (intro conjI allI impI)
      fix b eb
      assume "map_of (jl_value_to_llvm s') b = Some eb"
      with m have "eb = e \<or> map_of (jl_value_to_llvm s) b = Some eb"
        by (auto split: if_splits)
      then show "\<exists>p k. prefix_ok p \<and> k < globalUnique s' \<and> gv_name (gv eb) = p @ string_of_nat k"
      proof
        assume "eb = e"
        with e p u show ?thesis by (intro exI [of _ c] exI [of _ "globalUnique s"]) simp
      next
        assume "map_of (jl_value_to_llvm s) b = Some eb"
        with ok obtain q k where "prefix_ok q" "k < globalUnique s"
           "gv_name (gv eb) = q @ string_of_nat k"
          unfolding registry_names_ok_def by blast
        with u show ?thesis by (intro exI [of _ q] exI [of _ k]) simp
      qed
    next
      fix b eb b' eb'
      assume 1: "map_of (jl_value_to_llvm s') b = Some eb"
         and 2: "map_of (jl_value_to_llvm s') b' = Some eb'" and ne: "b \<noteq> b'"
      show "gv_name (gv eb) \<noteq> gv_name (gv eb')"
      proof (cases "b = a")
        case True
        with 1 m have "eb = e" by simp
        moreover from True ne 2 m have "map_of (jl_value_to_llvm s) b' = Some eb'" by simp
        ultimately show ?thesis using old [of b' eb'] by simp
      next
        case False
        with 1 m have b: "map_of (jl_value_to_llvm s) b = Some eb" by simp
        show ?thesis
        proof (cases "b' = a")
          case True
          with 2 m have "eb' = e" by simp
          with old [OF b] show ?thesis by simp
        next
          case False
          with 2 m have "map_of (jl_value_to_llvm s) b' = Some eb'" by simp
          with ok b ne show ?thesis unfolding registry_names_ok_def by blast
        qed
      qed
    qed
  qed
qed

lemma jl_get_global_for_registers:
  assumes "imaging_mode s" and "a \<noteq> 0"
      and call: "jl_get_global_for c a M T s = Inr ((g, M'), s')"
  shows "imaging_mode s' \<and> (\<exists>e. map_of (jl_value_to_llvm s') a = Some e \<and> gv_name (gv e) = g)"
proof (cases "map_of (jl_value_to_llvm s) a")
  case (Some e)
  from jl_get_global_for_found [OF Some, of c M T] call have "s' = s" "g = gv_name (gv e)" by auto
  with assms Some show ?thesis by simp
next
  case None
  from jl_get_global_for_new [OF None call] assms(1,2) show ?thesis
    by (auto simp: map_of_map_assign)
qed

lemma jl_get_global_for_keeps:
  assumes call: "jl_get_global_for c a M T s = Inr ((g, M'), s')"
      and "map_of (jl_value_to_llvm s) b = Some e"
  shows "map_of (jl_value_to_llvm s') b = Some e"
proof (cases "map_of (jl_value_to_llvm s) a")
  case (Some e)
  from jl_get_global_for_found [OF Some, of c M T] call have "s' = s" by auto
  with assms show ?thesis by simp
next
  case None
  with assms(2) have "b \<noteq> a" by auto
  with jl_get_global_for_new [OF None call] assms(2) show ?thesis
    by (auto simp: map_of_map_assign split: if_splits)
qed

lemma jl_get_global_for_imaging:
  assumes "jl_get_global_for c a M T s = Inr (r, s')"
  shows "imaging_mode s' = imaging_mode s"
proof (cases "map_of (jl_value_to_llvm s) a")
  case (Some e)
  from jl_get_global_for_found [OF Some, of c M T] assms show ?thesis by auto
next
  case None
  from jl_get_global_for_new [OF None, of c M T "fst r" "snd r" s'] assms show ?thesis
    by (cases r) auto
qed

lemma jl_dump_native_state:
  "jl_dump_native env data bc unopt obj sd sl s = Inr (r, s') \<Longrightarrow> s' = s\<lparr>imaging_mode := False\<rparr>"
  by (auto simp: jl_dump_native_def Let_def split: prod.splits sum.splits if_splits)

lemma jl_get_global_for_counter:
  assumes "jl_get_global_for c a M T s = Inr (r, s')"
  shows "globalUnique s \<le> globalUnique s'"
proof (cases "map_of (jl_value_to_llvm s) a")
  case (Some e)
  from jl_get_global_for_found [OF Some, of c M T] assms show ?thesis by auto
next
  case None
  from jl_get_global_for_new [OF None, of c M T "fst r" "snd r" s'] assms show ?thesis
    by (cases r) auto
qed

lemma jl_get_global_for_unregistered:
  assumes call: "jl_get_global_for c a M T s = Inr (r, s')"
      and "map_of (jl_value_to_llvm s) b = None"
      and "\<not> imaging_mode s \<or> b = 0"
  shows "map_of (jl_value_to_llvm s') b = None"
proof (cases "map_of (jl_value_to_llvm s) a")
  case (Some e)
  from jl_get_global_for_found [OF Some, of c M T] call have "s' = s" by auto
  with assms show ?thesis by simp
next
  case None
  from jl_get_global_for_new [OF None, of c M T "fst r" "snd r" s'] call assms(2,3)
  show ?thesis
    by (cases r) (auto simp: map_of_map_assign split: if_splits)
qed

lemma later_keeps:
  assumes "later P s s'"
  shows "(\<forall>b e. map_of (jl_value_to_llvm s) b = Some e \<longrightarrow> map_of (jl_value_to_llvm s') b = Some e)
       \<and> globalUnique s \<le> globalUnique s'
       \<and> (imaging_mode s' \<longrightarrow> imaging_mode s)
       \<and> (\<forall>b. map_of (jl_value_to_llvm s) b = None \<longrightarrow> \<not> imaging_mode s \<or> b = 0
              \<longrightarrow> map_of (jl_value_to_llvm s') b = None)"
  using assms
proof (induction rule: later.induct)
  case (later_refl s)
  show ?case by simp
next
  case (later_intern s s1 c a M T r s2)
  obtain g M' where r: "r = (g, M')" by (cases r)
  note call = later_intern.hyps(3)
  from later_intern.IH jl_get_global_for_keeps [OF call [unfolded r]]
       jl_get_global_for_counter [OF call] jl_get_global_for_imaging [OF call]
  have a: "(\<forall>b e. map_of (jl_value_to_llvm s) b = Some e \<longrightarrow> map_of (jl_value_to_llvm s2) b = Some e)
       \<and> globalUnique s \<le> globalUnique s2
       \<and> (imaging_mode s2 \<longrightarrow> imaging_mode s)" by auto
  have b: "map_of (jl_value_to_llvm s2) b = None"
    if n: "map_of (jl_value_to_llvm s) b = None" and m: "\<not> imaging_mode s \<or> b = 0" for b
  proof -
    from later_intern.IH n m have n1: "map_of (jl_value_to_llvm s1) b = None" by auto
    from later_intern.IH m have "\<not> imaging_mode s1 \<or> b = 0" by auto
    with n1 show ?thesis by (rule jl_get_global_for_unregistered [OF call])
  qed
  from a b show ?case by auto
next
  case (later_dump s s1 env data bc unopt obj sd sl r s2)
  from jl_dump_native_state [OF later_dump.hyps(2)] have "s2 = s1\<lparr>imaging_mode := False\<rparr>" .
  with later_dump.IH show ?case by simp
qed

lemma later_names:
  assumes "later prefix_ok s s'" and "registry_names_ok s"
  shows "registry_names_ok s'
       \<and> (\<forall>a e. map_of (jl_value_to_llvm s') a = Some e \<longrightarrow>
             map_of (jl_value_to_llvm s) a = Some e
             \<or> (\<exists>p k. prefix_ok p \<and> globalUnique s \<le> k \<and> gv_name (gv e) = p @ string_of_nat k))"
  using assms
proof (induction rule: later.induct)
  case (later_refl s)
  then show ?case by simp
next
  case (later_intern s s1 c a M T r s2)
  obtain g M' where r: "r = (g, M')" by (cases r)
  note call = later_intern.hyps(3) [unfolded r]
  from later_intern.IH later_intern.prems have ok1: "registry_names_ok s1"
    and th1: "\<forall>a e. map_of (jl_value_to_llvm s1) a = Some e \<longrightarrow>
             map_of (jl_value_to_llvm s) a = Some e
             \<or> (\<exists>p k. prefix_ok p \<and> globalUnique s \<le> k \<and> gv_name (gv e) = p @ string_of_nat k)"
    by blast+
  have ok2: "registry_names_ok s2"
    by (rule registry_names_ok_step [OF ok1 later_intern.hyps(2) call])
  from later_keeps [OF later_intern.hyps(1)] have mono: "globalUnique s \<le> globalUnique s1" by blast
  have th2: "map_of (jl_value_to_llvm s) b = Some e
             \<or> (\<exists>p k. prefix_ok p \<and> globalUnique s \<le> k \<and> gv_name (gv e) = p @ string_of_nat k)"
    if e: "map_of (jl_value_to_llvm s2) b = Some e" for b e
  proof (cases "map_of (jl_value_to_llvm s1) a")
    case (Some e1)
    from jl_get_global_for_found [OF Some, of c M T] call have "s2 = s1" by auto
    with e th1 show ?thesis by blast
  next
    case None
    note n = jl_get_global_for_new [OF None call]
    show ?thesis
    proof (cases "map_of (jl_value_to_llvm s1) b = Some e")
      case True
      with th1 show ?thesis by blast
    next
      case False
      with n e have "gv_name (gv e) = c @ string_of_nat (globalUnique s1)"
        by (auto simp: map_of_map_assign split: if_splits)
      with later_intern.hyps(2) mono show ?thesis by blast
    qed
  qed
  from ok2 th2 show ?case by blast
next
  case (later_dump s s1 env data bc unopt obj sd sl r s2)
  from jl_dump_native_state [OF later_dump.hyps(2)] have s2: "s2 = s1\<lparr>imaging_mode := False\<rparr>" .
  from later_dump.IH later_dump.prems show ?case
    unfolding s2 registry_names_ok_def by simp
qed

lemma jl_get_global_for_issued:
  assumes ok: "registry_names_ok s" and p: "prefix_ok c"
      and call: "jl_get_global_for c a M T s = Inr ((g, M'), s')"
  shows "\<exists>q k. prefix_ok q \<and> k < globalUnique s' \<and> g = q @ string_of_nat k"
proof (cases "map_of (jl_value_to_llvm s) a")
  case (Some e)
  from jl_get_global_for_found [OF Some, of c M T] call have "s' = s" "g = gv_name (gv e)" by auto
  with ok Some show ?thesis unfolding registry_names_ok_def by blast
next
  case None
  from jl_get_global_for_new [OF None call] p show ?thesis
    by (intro exI [of _ c] exI [of _ "globalUnique s"]) simp
qed

text \<open>
  C6 (amended). The claim: \<open>jl_get_global_for\<close> is idempotent for every address, and
  different addresses get different symbols. What holds, for a first call and a later one
  (after any number of calls of \<open>jl_get_global_for\<close> and \<open>jl_dump_native\<close>):

  \<^item> When the address is registered after the first call (it was registered before, or the
    first call is made in imaging mode for an address that is not null), a later call with
    that address returns the same symbol and leaves the whole state as it is: no registry
    entry is added, and the global table and the name counter do not grow. This does not
    depend on imaging mode at the later call: the lookup does not test it.

  \<^item> When the address is not registered and the first call is made outside imaging mode
    or for the null address, neither call registers anything, each names a new symbol by
    the counter and counts it up, and the two symbols differ (for equal prefixes, or
    prefixes that do not end in a digit).

  \<^item> A later call with another address returns another symbol, in any mode, for prefixes
    that do not end in a digit and a registry that satisfies its invariant.
\<close>

theorem jl_get_global_for_idempotent:
  assumes call1: "jl_get_global_for c1 a1 M1 T1 s = Inr ((g1, M1'), s1)"
      and call2: "jl_get_global_for c2 a2 M2 T2 s1' = Inr ((g2, M2'), s2)"
  shows "(a2 = a1 \<and> later (\<lambda>c. True) s1 s1'
            \<and> (map_count (jl_value_to_llvm s) a1 \<or> imaging_mode s \<and> a1 \<noteq> 0)
          \<longrightarrow> g2 = g1 \<and> s2 = s1')
       \<and> (a2 = a1 \<and> later (\<lambda>c. True) s1 s1'
            \<and> \<not> map_count (jl_value_to_llvm s) a1 \<and> (\<not> imaging_mode s \<or> a1 = 0)
          \<longrightarrow> g1 = c1 @ string_of_nat (globalUnique s)
              \<and> g2 = c2 @ string_of_nat (globalUnique s1')
              \<and> globalUnique s < globalUnique s1' \<and> globalUnique s2 = globalUnique s1' + 1
              \<and> jl_value_to_llvm s1 = jl_value_to_llvm s
              \<and> jl_value_to_llvm s2 = jl_value_to_llvm s1'
              \<and> jl_sysimg_gvars s1 = jl_sysimg_gvars s
              \<and> jl_sysimg_gvars s2 = jl_sysimg_gvars s1'
              \<and> (c2 = c1 \<or> prefix_ok c1 \<and> prefix_ok c2 \<longrightarrow> g2 \<noteq> g1))
       \<and> (a2 \<noteq> a1 \<and> later prefix_ok s1 s1' \<and> registry_names_ok s
            \<and> prefix_ok c1 \<and> prefix_ok c2
          \<longrightarrow> g2 \<noteq> g1)"
proof (rule conjI [OF _ conjI]; rule impI)
  assume h: "a2 = a1 \<and> later (\<lambda>c. True) s1 s1'
            \<and> (map_count (jl_value_to_llvm s) a1 \<or> imaging_mode s \<and> a1 \<noteq> 0)"
  have "\<exists>e1. map_of (jl_value_to_llvm s1) a1 = Some e1 \<and> gv_name (gv e1) = g1"
  proof (cases "map_of (jl_value_to_llvm s) a1")
    case (Some e)
    from jl_get_global_for_found [OF Some, of c1 M1 T1] call1
    have "s1 = s" "g1 = gv_name (gv e)" by auto
    with Some show ?thesis by simp
  next
    case None
    with h have "imaging_mode s" "a1 \<noteq> 0" by (auto simp: map_count_def)
    from jl_get_global_for_registers [OF this call1] show ?thesis by blast
  qed
  then obtain e1 where e1: "map_of (jl_value_to_llvm s1) a1 = Some e1"
    and n1: "gv_name (gv e1) = g1" by blast
  from h have l: "later (\<lambda>c. True) s1 s1'" by simp
  from later_keeps [OF l] e1 have e1': "map_of (jl_value_to_llvm s1') a1 = Some e1" by blast
  from jl_get_global_for_found [OF e1', of c2 M2 T2] call2 n1 h
  show "g2 = g1 \<and> s2 = s1'" by auto
next
  assume h: "a2 = a1 \<and> later (\<lambda>c. True) s1 s1'
            \<and> \<not> map_count (jl_value_to_llvm s) a1 \<and> (\<not> imaging_mode s \<or> a1 = 0)"
  then have none: "map_of (jl_value_to_llvm s) a1 = None" and off: "\<not> imaging_mode s \<or> a1 = 0"
    and l: "later (\<lambda>c. True) s1 s1'" and a: "a2 = a1"
    by (auto simp: map_count_def)
  note n1 = jl_get_global_for_new [OF none call1]
  from n1 off have r1: "jl_value_to_llvm s1 = jl_value_to_llvm s"
    and t1: "jl_sysimg_gvars s1 = jl_sysimg_gvars s"
    and u1: "globalUnique s1 = globalUnique s + 1"
    and g1: "g1 = c1 @ string_of_nat (globalUnique s)"
    and i1: "imaging_mode s1 = imaging_mode s" by auto
  from none r1 have none1: "map_of (jl_value_to_llvm s1) a1 = None" by simp
  from off i1 have off1: "\<not> imaging_mode s1 \<or> a1 = 0" by simp
  note k = later_keeps [OF l]
  from k none1 off1 have none1': "map_of (jl_value_to_llvm s1') a1 = None" by auto
  from k off1 have off1': "\<not> imaging_mode s1' \<or> a1 = 0" by auto
  from k u1 have lt: "globalUnique s < globalUnique s1'" by simp
  note n2 = jl_get_global_for_new [OF none1' call2 [unfolded a]]
  from n2 off1' have r2: "jl_value_to_llvm s2 = jl_value_to_llvm s1'"
    and t2: "jl_sysimg_gvars s2 = jl_sysimg_gvars s1'"
    and u2: "globalUnique s2 = globalUnique s1' + 1"
    and g2: "g2 = c2 @ string_of_nat (globalUnique s1')" by auto
  have d: "g2 \<noteq> g1" if c: "c2 = c1 \<or> prefix_ok c1 \<and> prefix_ok c2"
  proof
    assume "g2 = g1"
    with g1 g2 have e: "c2 @ string_of_nat (globalUnique s1') = c1 @ string_of_nat (globalUnique s)"
      by simp
    from c have "globalUnique s1' = globalUnique s"
    proof
      assume "c2 = c1"
      with e have "string_of_nat (globalUnique s1') = string_of_nat (globalUnique s)" by simp
      then show ?thesis by (simp add: string_of_nat_inject)
    next
      assume "prefix_ok c1 \<and> prefix_ok c2"
      then have "prefix_ok c2" "prefix_ok c1" by simp_all
      from placeholder_name_inject [OF this e] show ?thesis .
    qed
    with lt show False by simp
  qed
  from g1 g2 lt u2 r1 r2 t1 t2 d
  show "g1 = c1 @ string_of_nat (globalUnique s)
              \<and> g2 = c2 @ string_of_nat (globalUnique s1')
              \<and> globalUnique s < globalUnique s1' \<and> globalUnique s2 = globalUnique s1' + 1
              \<and> jl_value_to_llvm s1 = jl_value_to_llvm s
              \<and> jl_value_to_llvm s2 = jl_value_to_llvm s1'
              \<and> jl_sysimg_gvars s1 = jl_sysimg_gvars s
              \<and> jl_sysimg_gvars s2 = jl_sysimg_gvars s1'
              \<and> (c2 = c1 \<or> prefix_ok c1 \<and> prefix_ok c2 \<longrightarrow> g2 \<noteq> g1)"
    by blast
next
  assume h: "a2 \<noteq> a1 \<and> later prefix_ok s1 s1' \<and> registry_names_ok s
            \<and> prefix_ok c1 \<and> prefix_ok c2"
  then have ne: "a2 \<noteq> a1" and l: "later prefix_ok s1 s1'" and ok: "registry_names_ok s"
    and c1: "prefix_ok c1" and c2: "prefix_ok c2" by simp_all
  have ok1: "registry_names_ok s1" by (rule registry_names_ok_step [OF ok c1 call1])
  from later_names [OF l ok1] have ok1': "registry_names_ok s1'"
    and th: "\<forall>a e. map_of (jl_value_to_llvm s1') a = Some e \<longrightarrow>
             map_of (jl_value_to_llvm s1) a = Some e
             \<or> (\<exists>p k. prefix_ok p \<and> globalUnique s1 \<le> k \<and> gv_name (gv e) = p @ string_of_nat k)"
    by blast+
  note k = later_keeps [OF l]
  from jl_get_global_for_issued [OF ok c1 call1] obtain q1 k1 where
    q1: "prefix_ok q1" and k1: "k1 < globalUnique s1" and g1: "g1 = q1 @ string_of_nat k1"
    by blast
  from k k1 have k1': "k1 < globalUnique s1'" by simp
  show "g2 \<noteq> g1"
  proof (cases "map_of (jl_value_to_llvm s1') a2")
    case None
    from jl_get_global_for_new [OF None call2]
    have g2: "g2 = c2 @ string_of_nat (globalUnique s1')" by simp
    show ?thesis
    proof
      assume "g2 = g1"
      with g1 g2 have "c2 @ string_of_nat (globalUnique s1') = q1 @ string_of_nat k1" by simp
      from placeholder_name_inject [OF c2 q1 this] k1' show False by simp
    qed
  next
    case (Some e2)
    from jl_get_global_for_found [OF Some, of c2 M2 T2] call2
    have g2: "g2 = gv_name (gv e2)" by auto
    show ?thesis
    proof (cases "map_of (jl_value_to_llvm s1) a1")
      case (Some e1)
      have n1: "gv_name (gv e1) = g1"
      proof (cases "map_of (jl_value_to_llvm s) a1")
        case (Some e)
        from jl_get_global_for_found [OF Some, of c1 M1 T1] call1
        have "s1 = s" "g1 = gv_name (gv e)" by auto
        with Some \<open>map_of (jl_value_to_llvm s1) a1 = Some e1\<close> show ?thesis by simp
      next
        case None
        from jl_get_global_for_new [OF None call1] \<open>map_of (jl_value_to_llvm s1) a1 = Some e1\<close> None
        show ?thesis by (auto simp: map_of_map_assign split: if_splits)
      qed
      from k Some have "map_of (jl_value_to_llvm s1') a1 = Some e1" by blast
      with ok1' \<open>map_of (jl_value_to_llvm s1') a2 = Some e2\<close> ne
      have "gv_name (gv e2) \<noteq> gv_name (gv e1)"
        unfolding registry_names_ok_def by blast
      with n1 g2 show ?thesis by simp
    next
      case None
      have nn: "map_of (jl_value_to_llvm s) a1 = None"
      proof (cases "map_of (jl_value_to_llvm s) a1")
        case (Some e)
        from jl_get_global_for_found [OF Some, of c1 M1 T1] call1 have "s1 = s" by auto
        with Some None show ?thesis by simp
      qed simp
      note n1 = jl_get_global_for_new [OF nn call1]
      from n1 have g1': "g1 = c1 @ string_of_nat (globalUnique s)"
        and u1: "globalUnique s1 = globalUnique s + 1" by simp_all
      from n1 None have r1: "jl_value_to_llvm s1 = jl_value_to_llvm s"
        by (auto simp: map_of_map_assign split: if_splits)
      from th \<open>map_of (jl_value_to_llvm s1') a2 = Some e2\<close>
      have "map_of (jl_value_to_llvm s1) a2 = Some e2
             \<or> (\<exists>p k. prefix_ok p \<and> globalUnique s1 \<le> k \<and> gv_name (gv e2) = p @ string_of_nat k)"
        by blast
      then have "\<exists>p k. prefix_ok p \<and> k \<noteq> globalUnique s
                 \<and> gv_name (gv e2) = p @ string_of_nat k"
      proof
        assume "map_of (jl_value_to_llvm s1) a2 = Some e2"
        with r1 have "map_of (jl_value_to_llvm s) a2 = Some e2" by simp
        with ok obtain p k where "prefix_ok p" "k < globalUnique s"
          "gv_name (gv e2) = p @ string_of_nat k"
          unfolding registry_names_ok_def by blast
        then show ?thesis by (intro exI [of _ p] exI [of _ k]) simp
      next
        assume "\<exists>p k. prefix_ok p \<and> globalUnique s1 \<le> k \<and> gv_name (gv e2) = p @ string_of_nat k"
        then obtain p k where "prefix_ok p" "globalUnique s1 \<le> k"
          "gv_name (gv e2) = p @ string_of_nat k" by blast
        with u1 show ?thesis by (intro exI [of _ p] exI [of _ k]) simp
      qed
      then obtain p k where p: "prefix_ok p" and kk: "k \<noteq> globalUnique s"
        and n2: "gv_name (gv e2) = p @ string_of_nat k" by blast
      show ?thesis
      proof
        assume "g2 = g1"
        with g2 n2 g1' have "p @ string_of_nat k = c1 @ string_of_nat (globalUnique s)" by simp
        from placeholder_name_inject [OF p c1 this] kk show False by simp
      qed
    qed
  qed
qed

text \<open>
  The claim as stated fails outside imaging mode: two calls with the same address give
  two symbols.
\<close>

theorem jl_get_global_for_twice_not_imaging:
  "intern_twice ''jl_global#'' 4096 \<lparr>m_globals = [], m_triple = [], m_layout = []\<rparr> PointerTy
     (example_state\<lparr>imaging_mode := False\<rparr>) = Inr (''jl_global#0'', ''jl_global#1'')"
  by (simp add: intern_twice_def registry_defs example_state_def Let_def string_of_nat.simps)

theorem jl_get_global_for_idempotent_witness:
  "\<exists>M1 r s1' M2 g3 M3 s3.
     jl_get_global_for ''jl_global#'' 4096 \<lparr>m_globals = [], m_triple = [], m_layout = []\<rparr>
         PointerTy example_state = Inr ((''jl_global#0'', M1), example_registered)
     \<and> imaging_mode example_state
     \<and> jl_dump_native example_env example_session None None None None 0 example_registered
         = Inr (r, s1')
     \<and> \<not> imaging_mode s1'
     \<and> jl_get_global_for ''jl_sym#'' 4096 \<lparr>m_globals = [], m_triple = [], m_layout = []\<rparr>
         PointerTy s1' = Inr ((''jl_global#0'', M2), s1')
     \<and> jl_get_global_for ''jl_sym#'' 8192 \<lparr>m_globals = [], m_triple = [], m_layout = []\<rparr>
         PointerTy s1' = Inr ((g3, M3), s3)
     \<and> g3 \<noteq> ''jl_global#0''
     \<and> jl_value_to_llvm s3 = jl_value_to_llvm s1'
     \<and> (\<exists>g4 M4 s4. jl_get_global_for ''jl_sym#'' 8192 M3 PointerTy s3 = Inr ((g4, M4), s4)
            \<and> g4 \<noteq> g3 \<and> jl_value_to_llvm s4 = jl_value_to_llvm s1')"
proof -
  let ?M = "\<lparr>m_globals = [], m_triple = [], m_layout = []\<rparr>"
  have ok: "registry_names_ok example_state"
    by (simp add: registry_names_ok_def example_state_def)
  have im: "imaging_mode example_state"
    by (simp add: example_state_def)
  have p1: "prefix_ok ''jl_global#''" and p2: "prefix_ok ''jl_sym#''"
    by (simp_all add: prefix_ok_def)
  obtain M1 where
    call1: "jl_get_global_for ''jl_global#'' 4096 ?M PointerTy example_state
              = Inr ((''jl_global#0'', M1), example_registered)"
    by (simp add: example_registered_eq registry_defs example_state_def addComdat_def Let_def
          string_of_nat.simps)
  obtain r s1' where
    dump: "jl_dump_native example_env example_session None None None None 0 example_registered
          = Inr (r, s1')"
    by (simp add: dump_defs example_session_eq example_registered_eq example_defs
          getNamedValue_def addComdat_def Let_def)
  from jl_dump_native_state [OF dump] have s1': "s1' = example_registered\<lparr>imaging_mode := False\<rparr>" .
  then have off: "\<not> imaging_mode s1'" by simp
  have l1: "later (\<lambda>c. True) example_registered s1'"
    by (rule later_dump [OF later_refl dump])
  have l2: "later prefix_ok example_registered s1'"
    by (rule later_dump [OF later_refl dump])
  obtain g2 M2 s2 where
    call2: "jl_get_global_for ''jl_sym#'' 4096 ?M PointerTy s1' = Inr ((g2, M2), s2)"
    unfolding s1'
    by (simp add: example_registered_eq registry_defs example_state_def getNamedValue_def)
  obtain g3 M3 s3 where
    call3: "jl_get_global_for ''jl_sym#'' 8192 ?M PointerTy s1' = Inr ((g3, M3), s3)"
    unfolding s1'
    by (simp add: example_registered_eq registry_defs example_state_def getNamedValue_def
          addComdat_def Let_def)
  have n3: "\<not> map_count (jl_value_to_llvm s1') 8192"
    unfolding s1' by (simp add: map_count_def example_registered_eq example_state_def)
  from n3 have none3: "map_of (jl_value_to_llvm s1') 8192 = None" by (simp add: map_count_def)
  from jl_get_global_for_new [OF none3 call3] off
  have r3: "jl_value_to_llvm s3 = jl_value_to_llvm s1'" and i3: "\<not> imaging_mode s3" by auto
  from none3 r3 have none3': "map_of (jl_value_to_llvm s3) 8192 = None" by simp
  obtain g4 M4 s4 where
    call4: "jl_get_global_for ''jl_sym#'' 8192 M3 PointerTy s3 = Inr ((g4, M4), s4)"
    using none3' i3
    by (simp add: registry_defs Let_def)
  have same: "g2 = ''jl_global#0'' \<and> s2 = s1'"
    using jl_get_global_for_idempotent [OF call1 call2] l1 im by simp
  have other: "g3 \<noteq> ''jl_global#0''"
    using jl_get_global_for_idempotent [OF call1 call3] l2 ok p1 p2 by simp
  have fresh: "g4 \<noteq> g3 \<and> jl_value_to_llvm s4 = jl_value_to_llvm s3"
    using jl_get_global_for_idempotent [OF call3 call4] n3 off later_refl [of "\<lambda>c. True" s3]
    by blast
  have last: "\<exists>g4 M4 s4. jl_get_global_for ''jl_sym#'' 8192 M3 PointerTy s3 = Inr ((g4, M4), s4)
            \<and> g4 \<noteq> g3 \<and> jl_value_to_llvm s4 = jl_value_to_llvm s1'"
    apply (rule exI [of _ g4])
    apply (rule exI [of _ M4])
    apply (rule exI [of _ s4])
    using call4 fresh r3 by simp
  have call2': "jl_get_global_for ''jl_sym#'' 4096 ?M PointerTy s1' = Inr ((''jl_global#0'', M2), s1')"
    using call2 same by simp
  show ?thesis
    apply (rule exI [of _ M1])
    apply (rule exI [of _ r])
    apply (rule exI [of _ s1'])
    apply (rule exI [of _ M2])
    apply (rule exI [of _ g3])
    apply (rule exI [of _ M3])
    apply (rule exI [of _ s3])
    apply (intro conjI)
            apply (rule call1)
           apply (rule im)
          apply (rule dump)
         apply (rule off)
        apply (rule call2')
       apply (rule call3)
      apply (rule other)
     apply (rule r3)
    apply (rule last)
    done
qed


section \<open>Indices and table positions\<close>

lemma registry_index_ok_fresh:
  "jl_value_to_llvm s = [] \<Longrightarrow> jl_sysimg_gvars s = [] \<Longrightarrow> registry_index_ok s"
  by (simp add: registry_index_ok_def)

lemma registry_names_ok_fresh: "jl_value_to_llvm s = [] \<Longrightarrow> registry_names_ok s"
  by (simp add: registry_names_ok_def)

lemma fvars_index_ok_step:
  assumes inv: "fvars_index_ok F0 m0 merged"
      and new: "li \<notin> fst ` set merged"
      and X: "\<forall>k. k < length X \<longrightarrow> X ! k = functionObject decls"
      and f: "\<exists>k. length F0 \<le> k \<and> k < length (F0 @ X) \<and> f = word_of_nat (Suc k)"
      and c: "c = 0 \<or> (\<exists>k. length F0 \<le> k \<and> k < length (F0 @ X) \<and> c = word_of_nat (Suc k))"
      and cov: "\<forall>k. length F0 \<le> k \<longrightarrow> k < length (F0 @ X)
                  \<longrightarrow> f = word_of_nat (Suc k) \<or> c = word_of_nat (Suc k)"
  shows "fvars_index_ok (F0 @ X) (map_assign li (api, c, f) m0)
           (merged @ [(li, (frag, decls, rt', api))])"
proof -
  have nthX: "(F0 @ X) ! k = functionObject decls" if "length F0 \<le> k" "k < length (F0 @ X)" for k
    using that X by (simp add: nth_append)
  have nth0: "(F0 @ X) ! k = F0 ! k" if "k < length F0" for k
    using that by (simp add: nth_append)
  have notin: "map_of m0 li = None"
  proof (rule ccontr)
    assume "map_of m0 li \<noteq> None"
    then have "map_count m0 li" by (simp add: map_count_def)
    with inv have "li \<in> fst ` set merged" unfolding fvars_index_ok_def by blast
    with new show False by simp
  qed
  show ?thesis
    unfolding fvars_index_ok_def
  proof (intro conjI allI impI)
    fix lj api' c' f'
    assume h: "map_of (map_assign li (api, c, f) m0) lj = Some (api', c', f')"
    show "\<exists>frag' decls' rt''. (lj, frag', decls', rt'', api') \<in> set (merged @ [(li, frag, decls, rt', api)])
            \<and> (\<exists>k<length (F0 @ X). f' = word_of_nat (Suc k) \<and> (F0 @ X) ! k = functionObject decls')
            \<and> (c' = 0 \<or> (\<exists>k<length (F0 @ X). c' = word_of_nat (Suc k)
                              \<and> (F0 @ X) ! k = functionObject decls'))"
    proof (cases "lj = li")
      case True
      with h have eq: "api' = api" "c' = c" "f' = f" by (simp_all add: map_of_map_assign)
      from f obtain kf where kf: "length F0 \<le> kf" "kf < length (F0 @ X)" "f = word_of_nat (Suc kf)"
        by blast
      have 1: "\<exists>k<length (F0 @ X). f' = word_of_nat (Suc k) \<and> (F0 @ X) ! k = functionObject decls"
        using kf nthX [OF kf(1,2)] eq by blast
      have 2: "c' = 0 \<or> (\<exists>k<length (F0 @ X). c' = word_of_nat (Suc k)
                              \<and> (F0 @ X) ! k = functionObject decls)"
        using c nthX eq by blast
      show ?thesis
        apply (rule exI [of _ frag])
        apply (rule exI [of _ decls])
        apply (rule exI [of _ rt'])
        using True eq 1 2 by simp
    next
      case False
      with h have old: "map_of m0 lj = Some (api', c', f')" by (simp add: map_of_map_assign)
      with inv obtain frag' decls' rt'' where
        m: "(lj, frag', decls', rt'', api') \<in> set merged"
        and fk: "\<exists>k<length F0. f' = word_of_nat (Suc k) \<and> F0 ! k = functionObject decls'"
        and ck: "c' = 0 \<or> (\<exists>k<length F0. c' = word_of_nat (Suc k) \<and> F0 ! k = functionObject decls')"
        unfolding fvars_index_ok_def by blast
      from fk nth0 have 1: "\<exists>k<length (F0 @ X). f' = word_of_nat (Suc k)
                               \<and> (F0 @ X) ! k = functionObject decls'"
        by (metis length_append trans_less_add1)
      from ck nth0 have 2: "c' = 0 \<or> (\<exists>k<length (F0 @ X). c' = word_of_nat (Suc k)
                              \<and> (F0 @ X) ! k = functionObject decls')"
        by (metis length_append trans_less_add1)
      show ?thesis
        apply (rule exI [of _ frag'])
        apply (rule exI [of _ decls'])
        apply (rule exI [of _ rt''])
        using m 1 2 by simp
    qed
  next
    fix k
    assume k: "k < length (F0 @ X)"
    show "\<exists>lj api' c' f'. map_of (map_assign li (api, c, f) m0) lj = Some (api', c', f')
            \<and> (f' = word_of_nat (Suc k) \<or> c' = word_of_nat (Suc k))"
    proof (cases "k < length F0")
      case True
      with inv obtain lj api' c' f' where
        old: "map_of m0 lj = Some (api', c', f')"
        and fc: "f' = word_of_nat (Suc k) \<or> c' = word_of_nat (Suc k)"
        unfolding fvars_index_ok_def by blast
      from old notin have "lj \<noteq> li" by auto
      with old have "map_of (map_assign li (api, c, f) m0) lj = Some (api', c', f')"
        by (simp add: map_of_map_assign)
      with fc show ?thesis by blast
    next
      case False
      with k cov have "f = word_of_nat (Suc k) \<or> c = word_of_nat (Suc k)" by simp
      moreover have "map_of (map_assign li (api, c, f) m0) li = Some (api, c, f)"
        by (simp add: map_of_map_assign)
      ultimately show ?thesis by blast
    qed
  next
    fix lj
    assume "map_count (map_assign li (api, c, f) m0) lj"
    then have "lj = li \<or> map_count m0 lj" by (simp add: map_count_map_assign)
    with inv show "lj \<in> fst ` set (merged @ [(li, frag, decls, rt', api)])"
      unfolding fvars_index_ok_def by force
  qed
qed


lemma merge_step_effect:
  assumes "jl_create_native_merge rt s (li, (frag, decls, rt', api)) (c0, data, merged)
             = Inr (c1, data1, merged1)"
  shows "merged1 = merged @ [(li, (frag, decls, rt', api))] \<and>
         jl_sysimg_fvars data1 = jl_sysimg_fvars data @
            (if rettype (method_instances s li) = rt' then [functionObject decls] else []) @
            [functionObject decls] \<and>
         jl_fvar_map data1 =
           map_assign li
             (api,
              (if rettype (method_instances s li) = rt'
               then word_of_nat (Suc (length (jl_sysimg_fvars data))) else 0),
              word_of_nat (length (jl_sysimg_fvars data1)))
             (jl_fvar_map data)"
proof -
  from assms obtain fragment where fr: "frag = Some fragment"
    by (cases frag) (simp_all add: jl_create_native_merge_def)
  define clone where "clone = jl_merge_module rt c0 fragment"
  from assms fr obtain func where
    fu: "cast_Function (getNamedValue clone (functionObject decls)) = Inr func"
    by (auto simp: jl_create_native_merge_def Let_def clone_def split: sum.splits)
  then have nm: "gv_name func = functionObject decls" and ne: "functionObject decls \<noteq> []"
    by (auto simp: cast_Function_def getNamedValue_def find_Some_iff
             split: option.splits if_splits)
  from assms show ?thesis
    by (auto simp: jl_create_native_merge_def Let_def fr clone_def [symmetric] fu nm ne
          split: if_splits)
qed

lemma merge_step_inv:
  assumes inv: "fvars_index_ok (jl_sysimg_fvars data) (jl_fvar_map data) merged"
      and new: "fst def \<notin> fst ` set merged"
      and step: "jl_create_native_merge rt s def (c0, data, merged) = Inr (c1, data1, merged1)"
  shows "fvars_index_ok (jl_sysimg_fvars data1) (jl_fvar_map data1) merged1
         \<and> merged1 = merged @ [def]"
proof -
  obtain li frag decls rt' api where d: "def = (li, (frag, decls, rt', api))"
    by (cases def) auto
  note e = merge_step_effect [OF step [unfolded d]]
  from new d have new': "li \<notin> fst ` set merged" by simp
  show ?thesis
  proof (cases "rettype (method_instances s li) = rt'")
    case True
    let ?n = "length (jl_sysimg_fvars data)"
    have "fvars_index_ok (jl_sysimg_fvars data @ [functionObject decls, functionObject decls])
            (map_assign li (api, word_of_nat (Suc ?n), word_of_nat (Suc (Suc ?n)))
               (jl_fvar_map data))
            (merged @ [(li, (frag, decls, rt', api))])"
    proof (rule fvars_index_ok_step [OF inv new'])
      show "\<forall>k. k < length [functionObject decls, functionObject decls] \<longrightarrow>
              [functionObject decls, functionObject decls] ! k = functionObject decls"
        by (simp add: nth_Cons')
      show "\<exists>k. ?n \<le> k \<and> k < length (jl_sysimg_fvars data @ [functionObject decls, functionObject decls])
               \<and> (word_of_nat (Suc (Suc ?n)) :: 32 word) = word_of_nat (Suc k)"
        by (rule exI [of _ "Suc ?n"]) simp
      show "(word_of_nat (Suc ?n) :: 32 word) = 0 \<or>
            (\<exists>k. ?n \<le> k \<and> k < length (jl_sysimg_fvars data @ [functionObject decls, functionObject decls])
               \<and> (word_of_nat (Suc ?n) :: 32 word) = word_of_nat (Suc k))"
        by (rule disjI2, rule exI [of _ ?n]) simp
      show "\<forall>k. ?n \<le> k \<longrightarrow>
              k < length (jl_sysimg_fvars data @ [functionObject decls, functionObject decls]) \<longrightarrow>
              (word_of_nat (Suc (Suc ?n)) :: 32 word) = word_of_nat (Suc k)
              \<or> (word_of_nat (Suc ?n) :: 32 word) = word_of_nat (Suc k)"
      proof (intro allI impI)
        fix k
        assume "?n \<le> k" "k < length (jl_sysimg_fvars data @ [functionObject decls, functionObject decls])"
        then have "k = ?n \<or> k = Suc ?n" by auto
        then show "(word_of_nat (Suc (Suc ?n)) :: 32 word) = word_of_nat (Suc k)
              \<or> (word_of_nat (Suc ?n) :: 32 word) = word_of_nat (Suc k)"
          by auto
      qed
    qed
    with e True d show ?thesis by simp
  next
    case False
    let ?n = "length (jl_sysimg_fvars data)"
    have "fvars_index_ok (jl_sysimg_fvars data @ [functionObject decls])
            (map_assign li (api, 0, word_of_nat (Suc ?n)) (jl_fvar_map data))
            (merged @ [(li, (frag, decls, rt', api))])"
    proof (rule fvars_index_ok_step [OF inv new'])
      show "\<forall>k. k < length [functionObject decls] \<longrightarrow> [functionObject decls] ! k = functionObject decls"
        by simp
      show "\<exists>k. ?n \<le> k \<and> k < length (jl_sysimg_fvars data @ [functionObject decls])
               \<and> (word_of_nat (Suc ?n) :: 32 word) = word_of_nat (Suc k)"
        by (rule exI [of _ ?n]) simp
      show "(0 :: 32 word) = 0 \<or>
            (\<exists>k. ?n \<le> k \<and> k < length (jl_sysimg_fvars data @ [functionObject decls])
               \<and> (0 :: 32 word) = word_of_nat (Suc k))"
        by simp
      show "\<forall>k. ?n \<le> k \<longrightarrow> k < length (jl_sysimg_fvars data @ [functionObject decls]) \<longrightarrow>
              (word_of_nat (Suc ?n) :: 32 word) = word_of_nat (Suc k)
              \<or> (0 :: 32 word) = word_of_nat (Suc k)"
      proof (intro allI impI)
        fix k
        assume "?n \<le> k" "k < length (jl_sysimg_fvars data @ [functionObject decls])"
        then have "k = ?n" by auto
        then show "(word_of_nat (Suc ?n) :: 32 word) = word_of_nat (Suc k)
              \<or> (0 :: 32 word) = word_of_nat (Suc k)"
          by simp
      qed
    qed
    with e False d show ?thesis by simp
  qed
qed

lemma merge_all_inv:
  assumes "fvars_index_ok (jl_sysimg_fvars data) (jl_fvar_map data) merged"
      and "distinct (map fst defs)"
      and "fst ` set defs \<inter> fst ` set merged = {}"
      and "jl_create_native_merge_all rt s defs (c0, data, merged) = Inr (c1, data1, merged1)"
  shows "fvars_index_ok (jl_sysimg_fvars data1) (jl_fvar_map data1) merged1"
  using assms
proof (induction defs arbitrary: c0 data merged)
  case Nil
  then show ?case by simp
next
  case (Cons d defs)
  from Cons.prems(4) obtain c' data' merged' where
    st: "jl_create_native_merge rt s d (c0, data, merged) = Inr (c', data', merged')"
    and rest: "jl_create_native_merge_all rt s defs (c', data', merged') = Inr (c1, data1, merged1)"
    by (auto split: sum.splits)
  from Cons.prems(3) have new: "fst d \<notin> fst ` set merged" by auto
  from merge_step_inv [OF Cons.prems(1) new st] have
    inv': "fvars_index_ok (jl_sysimg_fvars data') (jl_fvar_map data') merged'"
    and m': "merged' = merged @ [d]" by auto
  from Cons.prems(2) have dist: "distinct (map fst defs)" and nd: "fst d \<notin> fst ` set defs"
    by auto
  from Cons.prems(3) nd m' have disj: "fst ` set defs \<inter> fst ` set merged' = {}"
    by auto
  from Cons.IH [OF inv' dist disj rest] show ?case .
qed

lemma fvars_index_ok_empty: "fvars_index_ok [] [] []"
  by (simp add: fvars_index_ok_def map_count_def)

lemma jl_create_native_fvars:
  assumes "jl_create_native rt methods s = Inr ((data, calls, merged), s1)"
  shows "fvars_index_ok (jl_sysimg_fvars data) (jl_fvar_map data) merged"
proof -
  define ds where "ds = fold (jl_create_native_pass rt methods) [2, 1]
                 (\<lparr>emitted = [], workqueue = [], codegen_calls = []\<rparr>, s)"
  define data0 where "data0 = \<lparr>data_M = \<lparr>m_globals = [], m_triple = [], m_layout = []\<rparr>,
         jl_sysimg_fvars = [], data_jl_sysimg_gvars = [], jl_fvar_map = ([] :: (nat, 8 word \<times> 32 word \<times> 32 word) std_map)\<rparr>"
  from assms obtain clone data' where
    m: "jl_create_native_merge_all rt (snd ds) (map_entries (emitted (fst ds)))
       (shadow_output (snd ds), data0, []) = Inr (clone, data', merged)"
    and d: "jl_sysimg_fvars data = jl_sysimg_fvars data'" "jl_fvar_map data = jl_fvar_map data'"
    by (auto simp: jl_create_native_def Let_def ds_def data0_def split: sum.splits prod.splits)
  have "fvars_index_ok (jl_sysimg_fvars data0) (jl_fvar_map data0) []"
    by (simp add: data0_def fvars_index_ok_empty)
  from merge_all_inv [OF this distinct_map_entries _ m] d show ?thesis by simp
qed

lemma jl_create_native_gvars:
  assumes "jl_create_native rt methods s = Inr ((data, calls, merged), s1)"
  shows "data_jl_sysimg_gvars data = jl_sysimg_gvars s1"
proof -
  have r: "remap_gvars sh vs = Inr vs' \<Longrightarrow> vs' = vs" for sh vs vs'
    by (induction vs arbitrary: vs')
       (auto split: option.splits sum.splits dest: getNamedValue_name)
  from assms show ?thesis
    by (auto simp: jl_create_native_def Let_def split: sum.splits prod.splits dest: r)
qed


lemma unat_index: "n < 2 ^ 32 \<Longrightarrow> unat (word_of_nat n :: 32 word) = n"
  by (simp add: unat_of_nat)

lemma sint_index: "n < 2 ^ 31 \<Longrightarrow> sint (word_of_nat n :: 32 word) = int n"
  by (simp add: signed_of_nat signed_take_bit_int_eq_self)

lemma registry_index_ok_step:
  assumes ok: "registry_index_ok s"
      and call: "jl_get_global_for c a M T s = Inr ((g, M'), s')"
  shows "registry_index_ok s'"
proof (cases "map_of (jl_value_to_llvm s) a")
  case (Some e)
  from jl_get_global_for_found [OF Some, of c M T] call have "s' = s" by auto
  with ok show ?thesis by simp
next
  case None
  note n = jl_get_global_for_new [OF None call]
  show ?thesis
  proof (cases "imaging_mode s \<and> a \<noteq> 0")
    case False
    with n have "jl_value_to_llvm s' = jl_value_to_llvm s" "jl_sysimg_gvars s' = jl_sysimg_gvars s"
      by auto
    with ok show ?thesis by (simp add: registry_index_ok_def)
  next
    case True
    define e0 where "e0 = \<lparr>gv = \<lparr>gv_name = g, gv_is_function = False, gv_elem_type = PointerTy,
                            gv_init = None, gv_linkage = ExternalLinkage, gv_constant = False,
                            gv_align = 0\<rparr>,
                     index = (word_of_nat (Suc (length (jl_sysimg_gvars s))) :: 32 word)\<rparr>"
    from n True have m: "map_of (jl_value_to_llvm s') = (map_of (jl_value_to_llvm s))(a \<mapsto> e0)"
      and gs: "jl_sysimg_gvars s' = jl_sysimg_gvars s @ [g]"
      by (simp_all add: map_of_map_assign e0_def)
    have e0: "index e0 = word_of_nat (Suc (length (jl_sysimg_gvars s)))" "gv_name (gv e0) = g"
      by (simp_all add: e0_def)
    show ?thesis
      unfolding registry_index_ok_def
    proof (intro conjI allI impI)
      fix b eb
      assume h: "map_of (jl_value_to_llvm s') b = Some eb"
      show "\<exists>k<length (jl_sysimg_gvars s'). index eb = word_of_nat (Suc k)
               \<and> jl_sysimg_gvars s' ! k = gv_name (gv eb)"
      proof (cases "b = a")
        case True
        with h m have "eb = e0" by simp
        with e0 gs show ?thesis
          by (intro exI [of _ "length (jl_sysimg_gvars s)"]) simp
      next
        case False
        with h m have "map_of (jl_value_to_llvm s) b = Some eb" by simp
        with ok obtain k where "k < length (jl_sysimg_gvars s)" "index eb = word_of_nat (Suc k)"
          "jl_sysimg_gvars s ! k = gv_name (gv eb)"
          unfolding registry_index_ok_def by blast
        with gs show ?thesis
          by (intro exI [of _ k]) (simp add: nth_append)
      qed
    next
      fix k
      assume k: "k < length (jl_sysimg_gvars s')"
      show "\<exists>b eb. map_of (jl_value_to_llvm s') b = Some eb \<and> index eb = word_of_nat (Suc k)"
      proof (cases "k < length (jl_sysimg_gvars s)")
        case True
        with ok obtain b eb where b: "map_of (jl_value_to_llvm s) b = Some eb"
          and i: "index eb = word_of_nat (Suc k)"
          unfolding registry_index_ok_def by blast
        from b None have "b \<noteq> a" by auto
        with b m have "map_of (jl_value_to_llvm s') b = Some eb" by simp
        with i show ?thesis by blast
      next
        case False
        with k gs have "k = length (jl_sysimg_gvars s)" by simp
        with m e0 show ?thesis by (intro exI [of _ a] exI [of _ e0]) simp
      qed
    qed
  qed
qed

lemma fvars_index_unat:
  assumes ok: "fvars_index_ok F m merged" and n: "length F < 2 ^ 32"
  shows "(\<forall>li api c f. map_of m li = Some (api, c, f) \<longrightarrow>
           (\<exists>frag decls rt'. (li, (frag, decls, rt', api)) \<in> set merged
              \<and> 0 < unat f \<and> unat f \<le> length F \<and> F ! (unat f - 1) = functionObject decls
              \<and> (c \<noteq> 0 \<longrightarrow> unat c \<le> length F \<and> F ! (unat c - 1) = functionObject decls)))
       \<and> (\<forall>k. k < length F \<longrightarrow>
            (\<exists>li api c f. map_of m li = Some (api, c, f) \<and> (unat f = Suc k \<or> unat c = Suc k)))"
proof (intro conjI allI impI)
  fix li api c f
  assume "map_of m li = Some (api, c, f)"
  with ok obtain frag decls rt' where
    m: "(li, (frag, decls, rt', api)) \<in> set merged"
    and fk: "\<exists>k. k < length F \<and> f = word_of_nat (Suc k) \<and> F ! k = functionObject decls"
    and ck: "c = 0 \<or> (\<exists>k. k < length F \<and> c = word_of_nat (Suc k) \<and> F ! k = functionObject decls)"
    unfolding fvars_index_ok_def by blast
  from fk obtain k where k: "k < length F" "f = word_of_nat (Suc k)" "F ! k = functionObject decls"
    by blast
  with n have uf: "unat f = Suc k" by (simp only: k(2)) (rule unat_index, simp)
  have c': "unat c \<le> length F \<and> F ! (unat c - 1) = functionObject decls" if "c \<noteq> 0"
  proof -
    from ck that obtain j where j: "j < length F" "c = word_of_nat (Suc j)"
       "F ! j = functionObject decls" by blast
    with n have "unat c = Suc j" by (simp only: j(2)) (rule unat_index, simp)
    with j show ?thesis by simp
  qed
  show "\<exists>frag decls rt'. (li, (frag, decls, rt', api)) \<in> set merged
              \<and> 0 < unat f \<and> unat f \<le> length F \<and> F ! (unat f - 1) = functionObject decls
              \<and> (c \<noteq> 0 \<longrightarrow> unat c \<le> length F \<and> F ! (unat c - 1) = functionObject decls)"
    apply (rule exI [of _ frag])
    apply (rule exI [of _ decls])
    apply (rule exI [of _ rt'])
    using m uf k c' by simp
next
  fix k
  assume k: "k < length F"
  with ok obtain li api c f where h: "map_of m li = Some (api, c, f)"
    and fc: "f = word_of_nat (Suc k) \<or> c = word_of_nat (Suc k)"
    unfolding fvars_index_ok_def by blast
  from k n have "unat (word_of_nat (Suc k) :: 32 word) = Suc k"
    by (intro unat_index) simp
  with fc have "unat f = Suc k \<or> unat c = Suc k" by auto
  with h show "\<exists>li api c f. map_of m li = Some (api, c, f) \<and> (unat f = Suc k \<or> unat c = Suc k)"
    by blast
qed

lemma registry_index_sint:
  assumes ok: "registry_index_ok s" and n: "length (jl_sysimg_gvars s) < 2 ^ 31"
  shows "(\<forall>a e. map_of (jl_value_to_llvm s) a = Some e \<longrightarrow>
            0 < sint (index e) \<and> nat (sint (index e)) \<le> length (jl_sysimg_gvars s)
            \<and> jl_sysimg_gvars s ! (nat (sint (index e)) - 1) = gv_name (gv e))
       \<and> (\<forall>k. k < length (jl_sysimg_gvars s) \<longrightarrow> (\<exists>a. sint (jl_get_llvm_gv s a) = int (Suc k)))
       \<and> (\<forall>a. (jl_get_llvm_gv s a = 0) = (map_of (jl_value_to_llvm s) a = None))"
proof -
  have si: "sint (word_of_nat (Suc k) :: 32 word) = int (Suc k)" if "k < length (jl_sysimg_gvars s)" for k
    using that n by (intro sint_index) simp
  have pos: "0 < sint (index e) \<and> nat (sint (index e)) \<le> length (jl_sysimg_gvars s)
            \<and> jl_sysimg_gvars s ! (nat (sint (index e)) - 1) = gv_name (gv e)"
    if "map_of (jl_value_to_llvm s) a = Some e" for a e
  proof -
    from ok that obtain k where k: "k < length (jl_sysimg_gvars s)" "index e = word_of_nat (Suc k)"
       "jl_sysimg_gvars s ! k = gv_name (gv e)"
      unfolding registry_index_ok_def by blast
    from si [OF k(1)] k(2) have s1: "sint (index e) = int (Suc k)" by (simp only:)
    then have s2: "nat (sint (index e)) = Suc k" by (simp only: nat_int)
    from s1 have "0 < sint (index e)" by simp
    with s2 k show ?thesis by simp
  qed
  have cov: "\<exists>a. sint (jl_get_llvm_gv s a) = int (Suc k)" if "k < length (jl_sysimg_gvars s)" for k
  proof -
    from ok that obtain a e where "map_of (jl_value_to_llvm s) a = Some e"
      "index e = word_of_nat (Suc k)"
      unfolding registry_index_ok_def by blast
    with si [OF that] have "sint (jl_get_llvm_gv s a) = int (Suc k)"
      by (simp add: jl_get_llvm_gv_def)
    then show ?thesis ..
  qed
  have zero: "(jl_get_llvm_gv s a = 0) = (map_of (jl_value_to_llvm s) a = None)" for a
  proof (cases "map_of (jl_value_to_llvm s) a")
    case None
    then show ?thesis by (simp add: jl_get_llvm_gv_def)
  next
    case (Some e)
    from pos [OF Some] have "index e \<noteq> 0" by auto
    with Some show ?thesis by (simp add: jl_get_llvm_gv_def)
  qed
  from pos cov zero show ?thesis by blast
qed


lemma registry_index_ok_example: "registry_index_ok example_registered"
  unfolding registry_index_ok_def
  by (simp add: example_registered_eq example_state_def)

text \<open>
  What an emission in imaging mode writes into the two offset tables, for sessions made
  by \<open>jl_create_native\<close>, tables shorter than the range of their index type, and a
  registry that satisfies its invariant (which \<open>jl_get_global_for\<close> keeps). Each table
  is a constant array with one element for each entry of its list, in order. Each
  registered address has a positive index, and the element before that position is its
  placeholder; every position of the global table is the index of a registered address;
  the index 0 stands for an address that is not registered. Each tuple of the function
  map has a generic index, and the element before that position is the entry's
  \<open>functionObject\<close>. The element before the position of a specialized index that is not
  0 is the entry's \<open>functionObject\<close> as well, since the source reads \<open>cfunc\<close> from
  that field: it is not the entry's \<open>specFunctionObject\<close>.
\<close>

lemma offset_tables_positions:
  assumes create: "jl_create_native rt methods s = Inr ((data, calls, merged), s1)"
      and reg: "registry_index_ok s1"
      and im: "imaging_mode s2"
      and dump: "jl_dump_native env data bc unopt obj sd sl s2 = Inr (r, s3)"
      and nf: "length (jl_sysimg_fvars data) < 2 ^ 32"
      and ng: "length (jl_sysimg_gvars s1) < 2 ^ 31"
  shows "(\<exists>rest. m_globals (ran_on r) = m_globals (data_M data) @
            [\<lparr>gv_name = ''jl_sysimg_gvars'', gv_is_function = False, gv_elem_type = ScalarTy,
              gv_init = Some (ConstantArray (map BitCast (jl_sysimg_gvars s1))),
              gv_linkage = ExternalLinkage, gv_constant = True, gv_align = 0\<rparr>,
             \<lparr>gv_name = ''jl_sysimg_fvars'', gv_is_function = False, gv_elem_type = ScalarTy,
              gv_init = Some (ConstantArray (map BitCast (jl_sysimg_fvars data))),
              gv_linkage = ExternalLinkage, gv_constant = True, gv_align = 0\<rparr>] @ rest)
     \<and> (\<forall>li api c f. map_of (jl_fvar_map data) li = Some (api, c, f) \<longrightarrow>
           (\<exists>frag decls rt'. (li, (frag, decls, rt', api)) \<in> set merged
              \<and> 0 < unat f \<and> unat f \<le> length (jl_sysimg_fvars data)
              \<and> jl_sysimg_fvars data ! (unat f - 1) = functionObject decls
              \<and> (c \<noteq> 0 \<longrightarrow> unat c \<le> length (jl_sysimg_fvars data)
                    \<and> jl_sysimg_fvars data ! (unat c - 1) = functionObject decls)))
     \<and> (\<forall>k. k < length (jl_sysimg_fvars data) \<longrightarrow>
            (\<exists>li api c f. map_of (jl_fvar_map data) li = Some (api, c, f)
               \<and> (unat f = Suc k \<or> unat c = Suc k)))
     \<and> (\<forall>a e. map_of (jl_value_to_llvm s1) a = Some e \<longrightarrow>
            0 < sint (index e) \<and> nat (sint (index e)) \<le> length (jl_sysimg_gvars s1)
            \<and> jl_sysimg_gvars s1 ! (nat (sint (index e)) - 1) = gv_name (gv e))
     \<and> (\<forall>k. k < length (jl_sysimg_gvars s1) \<longrightarrow> (\<exists>a. sint (jl_get_llvm_gv s1 a) = int (Suc k)))
     \<and> (\<forall>a. (jl_get_llvm_gv s1 a = 0) = (map_of (jl_value_to_llvm s1) a = None))"
proof -
  have g: "data_jl_sysimg_gvars data = jl_sysimg_gvars s1"
    by (rule jl_create_native_gvars [OF create])
  from jl_dump_native_tables [OF im dump] obtain rest where
    "m_globals (ran_on r) = m_globals (data_M data) @
      [\<lparr>gv_name = ''jl_sysimg_gvars'', gv_is_function = False, gv_elem_type = ScalarTy,
        gv_init = Some (ConstantArray (map BitCast (data_jl_sysimg_gvars data))),
        gv_linkage = ExternalLinkage, gv_constant = True, gv_align = 0\<rparr>,
       \<lparr>gv_name = ''jl_sysimg_fvars'', gv_is_function = False, gv_elem_type = ScalarTy,
        gv_init = Some (ConstantArray (map BitCast (jl_sysimg_fvars data))),
        gv_linkage = ExternalLinkage, gv_constant = True, gv_align = 0\<rparr>,
       \<lparr>gv_name = ''jl_globalUnique'', gv_is_function = False, gv_elem_type = ScalarTy,
        gv_init = Some (ConstantInt (if sizeof_size_t env = 8 then 64 else 32)
                      ((globalUnique s2 + 1) mod 2 ^ (if sizeof_size_t env = 8 then 64 else 32))),
        gv_linkage = ExternalLinkage, gv_constant = True, gv_align = 0\<rparr>] @ rest"
    by blast
  then have t: "\<exists>rest. m_globals (ran_on r) = m_globals (data_M data) @
            [\<lparr>gv_name = ''jl_sysimg_gvars'', gv_is_function = False, gv_elem_type = ScalarTy,
              gv_init = Some (ConstantArray (map BitCast (jl_sysimg_gvars s1))),
              gv_linkage = ExternalLinkage, gv_constant = True, gv_align = 0\<rparr>,
             \<lparr>gv_name = ''jl_sysimg_fvars'', gv_is_function = False, gv_elem_type = ScalarTy,
              gv_init = Some (ConstantArray (map BitCast (jl_sysimg_fvars data))),
              gv_linkage = ExternalLinkage, gv_constant = True, gv_align = 0\<rparr>] @ rest"
    by (simp add: g)
  note f = fvars_index_unat [OF jl_create_native_fvars [OF create] nf]
  note r = registry_index_sint [OF reg ng]
  show ?thesis
    apply (rule conjI [OF t])
    apply (rule conjI [OF conjunct1 [OF f]])
    apply (rule conjI [OF conjunct2 [OF f]])
    apply (rule r)
    done
qed

text \<open>
  C7. The claim: after an emission each offset table is a constant array with one element
  for each entry registered for it, and the element at position \<open>i - 1\<close> is the address
  of the symbol whose registry or function-table index is \<open>i\<close>. The code differs for
  the specialized index of a function. For the root 8 the code generator gives the generic
  entry point \<open>jlcall_8\<close> and the specialized entry point \<open>julia_8\<close>; the session
  records the specialized index 1 and the generic index 2; and the function table that
  the emission writes holds \<open>jlcall_8\<close> at both positions. The element at position 0
  is not the symbol whose specialized index is 1, and \<open>julia_8\<close>, though merged into
  the module, is at no position of the table. (The global table of the same emission does
  hold the placeholder of the registered address at the position of its index.)
\<close>

theorem offset_table_holds_generic_at_specialized_index:
  "map_sum id (\<lambda>r. (jl_fvar_map (fst (fst r)), jl_sysimg_fvars (fst (fst r))))
     (jl_create_native example_runtime [8] example_registered)
     = Inr ([(8, 1, 1, 2)], [''jlcall_8'', ''jlcall_8''])
   \<and> specFunctionObject (fst (snd (example_compile 8))) = ''julia_8''
   \<and> functionObject (fst (snd (example_compile 8))) = ''jlcall_8''
   \<and> map_sum id
       (\<lambda>r. (map gv_init (filter (\<lambda>g. gv_name g = ''jl_sysimg_fvars'' \<or> gv_name g = ''jl_sysimg_gvars'')
                             (m_globals (ran_on (fst r)))),
             filter (\<lambda>n. n = ''julia_8'') (map gv_name (m_globals (ran_on (fst r))))))
       (create_and_dump example_runtime [8] example_env None None None None 0 example_registered)
     = Inr ([Some (ConstantArray [BitCast ''jl_global#0'']),
             Some (ConstantArray [BitCast ''jlcall_8'', BitCast ''jlcall_8''])],
            [''julia_8''])
   \<and> jl_get_llvm_gv example_registered 4096 = 1"
  by (simp add: create_and_dump_def create_defs dump_defs example_defs example_registered_eq
        jl_get_llvm_gv_def)


end
